theory Spec2Isabelle
  imports Complex_Main "HOL-Library.AList" "HOL-Library.Sublist"
begin

section \<open>Signature cache (the module in src/tests/test-mappers.cjs, lines 116 to 243)\<close>

text \<open>
  The module owns two JavaScript \<open>Map\<close>s. A \<open>Map\<close> keeps its keys in insertion
  order and holds each key once, so each map is an association list: \<open>Map.set\<close> is
  \<open>AList.update\<close> (replace in place, or append), \<open>Map.delete\<close> is
  \<open>AList.delete\<close>, \<open>Map.get\<close> is \<open>map_of\<close>.

  \<open>Date.now()\<close> is passed to every operation as the argument \<open>now\<close>
  (milliseconds, an integer). The two constants the module imports from
  \<open>constants.js\<close>, \<open>GEMINI_SIGNATURE_CACHE_TTL_MS\<close> and
  \<open>MIN_SIGNATURE_LENGTH\<close>, are the parameters \<open>ttl\<close> and \<open>minlen\<close>.
\<close>

record sig_entry =
  signature :: string
  timestamp :: int

text \<open>The entry of the second map has the fields \<open>modelFamily\<close> and \<open>timestamp\<close>;
  the second field is named \<open>thinking_timestamp\<close> here, since two records cannot
  share a field name.\<close>

record thinking_entry =
  modelFamily :: string
  thinking_timestamp :: int

record cache_state =
  signatureCache :: "(string \<times> sig_entry) list"
  thinkingSignatureCache :: "(string \<times> thinking_entry) list"

definition initial_cache :: cache_state where
  "initial_cache = \<lparr>signatureCache = [], thinkingSignatureCache = []\<rparr>"

text \<open>The two \<open>for ... of map.entries()\<close> loops of \<open>cleanupExpiredEntries\<close>. The
  first argument after \<open>now\<close> is what the iterator still has to visit, the last one
  the map as it stands; deleting the entry being visited does not disturb the iterator.\<close>

fun sweep_signatures ::
  "int \<Rightarrow> int \<Rightarrow> (string \<times> sig_entry) list \<Rightarrow> (string \<times> sig_entry) list
    \<Rightarrow> (string \<times> sig_entry) list" where
  "sweep_signatures ttl now [] m = m"
| "sweep_signatures ttl now ((key, entry) # rest) m =
     sweep_signatures ttl now rest
       (if now - timestamp entry > ttl then AList.delete key m else m)"

fun sweep_thinking ::
  "int \<Rightarrow> int \<Rightarrow> (string \<times> thinking_entry) list \<Rightarrow> (string \<times> thinking_entry) list
    \<Rightarrow> (string \<times> thinking_entry) list" where
  "sweep_thinking ttl now [] m = m"
| "sweep_thinking ttl now ((key, entry) # rest) m =
     sweep_thinking ttl now rest
       (if now - thinking_timestamp entry > ttl then AList.delete key m else m)"

definition cleanupExpiredEntries :: "int \<Rightarrow> int \<Rightarrow> cache_state \<Rightarrow> cache_state" where
  "cleanupExpiredEntries ttl now s =
     (let s1 = s\<lparr>signatureCache :=
                   sweep_signatures ttl now (signatureCache s) (signatureCache s)\<rparr>
      in s1\<lparr>thinkingSignatureCache :=
              sweep_thinking ttl now (thinkingSignatureCache s1) (thinkingSignatureCache s1)\<rparr>)"

definition cacheSignature :: "int \<Rightarrow> string \<Rightarrow> string \<Rightarrow> cache_state \<Rightarrow> cache_state" where
  "cacheSignature now toolUseId sig s =
     (if toolUseId = [] \<or> sig = [] then s
      else s\<lparr>signatureCache :=
               AList.update toolUseId \<lparr>signature = sig, timestamp = now\<rparr> (signatureCache s)\<rparr>)"

definition getCachedSignature ::
  "int \<Rightarrow> int \<Rightarrow> string \<Rightarrow> cache_state \<Rightarrow> string option \<times> cache_state" where
  "getCachedSignature ttl now toolUseId s =
     (if toolUseId = [] then (None, s)
      else case map_of (signatureCache s) toolUseId of
        None \<Rightarrow> (None, s)
      | Some entry \<Rightarrow>
          if now - timestamp entry > ttl
          then (None, s\<lparr>signatureCache := AList.delete toolUseId (signatureCache s)\<rparr>)
          else (Some (signature entry), s))"

definition cacheThinkingSignature ::
  "nat \<Rightarrow> int \<Rightarrow> string \<Rightarrow> string \<Rightarrow> cache_state \<Rightarrow> cache_state" where
  "cacheThinkingSignature minlen now sig family s =
     (if sig = [] \<or> length sig < minlen then s
      else s\<lparr>thinkingSignatureCache :=
               AList.update sig \<lparr>modelFamily = family, thinking_timestamp = now\<rparr>
                 (thinkingSignatureCache s)\<rparr>)"

definition getCachedSignatureFamily ::
  "int \<Rightarrow> int \<Rightarrow> string \<Rightarrow> cache_state \<Rightarrow> string option \<times> cache_state" where
  "getCachedSignatureFamily ttl now sig s =
     (if sig = [] then (None, s)
      else case map_of (thinkingSignatureCache s) sig of
        None \<Rightarrow> (None, s)
      | Some entry \<Rightarrow>
          if now - thinking_timestamp entry > ttl
          then (None, s\<lparr>thinkingSignatureCache := AList.delete sig (thinkingSignatureCache s)\<rparr>)
          else (Some (modelFamily entry), s))"

definition clearThinkingSignatureCache :: "cache_state \<Rightarrow> cache_state" where
  "clearThinkingSignatureCache s = s\<lparr>thinkingSignatureCache := []\<rparr>"

definition cleanupCache :: "int \<Rightarrow> int \<Rightarrow> cache_state \<Rightarrow> cache_state" where
  "cleanupCache ttl now s = cleanupExpiredEntries ttl now s"

text \<open>The states the module can be in: the two empty maps it starts with, and whatever
  its functions (the exported ones and the timer's sweep) make of a state it can be in,
  at any clock reading and with any arguments.\<close>

inductive reachable :: "nat \<Rightarrow> int \<Rightarrow> cache_state \<Rightarrow> bool" for minlen :: nat and ttl :: int where
  r_init: "reachable minlen ttl initial_cache"
| r_cacheSignature:
    "reachable minlen ttl s \<Longrightarrow> reachable minlen ttl (cacheSignature now k v s)"
| r_getCachedSignature:
    "reachable minlen ttl s \<Longrightarrow> reachable minlen ttl (snd (getCachedSignature ttl now k s))"
| r_cacheThinkingSignature:
    "reachable minlen ttl s \<Longrightarrow> reachable minlen ttl (cacheThinkingSignature minlen now k v s)"
| r_getCachedSignatureFamily:
    "reachable minlen ttl s \<Longrightarrow> reachable minlen ttl (snd (getCachedSignatureFamily ttl now k s))"
| r_clearThinkingSignatureCache:
    "reachable minlen ttl s \<Longrightarrow> reachable minlen ttl (clearThinkingSignatureCache s)"
| r_cleanupExpiredEntries:
    "reachable minlen ttl s \<Longrightarrow> reachable minlen ttl (cleanupExpiredEntries ttl now s)"

text \<open>What every reachable state satisfies: no key occurs twice in either map, and no
  key of the thinking-signature map is empty or shorter than the minimum length.\<close>

definition cache_inv :: "nat \<Rightarrow> cache_state \<Rightarrow> bool" where
  "cache_inv minlen s \<longleftrightarrow>
     distinct (map fst (signatureCache s)) \<and>
     distinct (map fst (thinkingSignatureCache s)) \<and>
     list_all (\<lambda>(k, e). k \<noteq> [] \<and> minlen \<le> length k) (thinkingSignatureCache s)"

text \<open>A cache after three stores, used to run the operations on concrete data.\<close>

definition demo_cache :: cache_state where
  "demo_cache =
     cacheThinkingSignature 4 2000 ''thinking-signature'' ''gemini''
       (cacheSignature 9000 ''toolu_02'' ''sigB''
         (cacheSignature 1000 ''toolu_01'' ''sigA'' initial_cache))"

section \<open>Parameter mapping (src/utils/mappers.js)\<close>

text \<open>
  The arguments of a function call arrive as decoded JSON, so a value is one of the six
  JSON kinds and an object never holds a property whose value is \<open>undefined\<close>: the
  test \<open>args.k !== undefined\<close> is \<open>map_of args k \<noteq> None\<close>. An object is the
  list of its own properties in insertion order; \<open>delete args.k\<close> is \<open>AList.delete\<close>
  and \<open>args.k = v\<close> is \<open>AList.update\<close>. Numbers are finite (JSON has neither
  \<open>NaN\<close> nor infinities) and \<open>-0 !== 0\<close> is false, so they are reals.
\<close>

datatype json =
    JNull
  | JBool bool
  | JNum real
  | JStr string
  | JArr "json list"
  | JObj "(string \<times> json) list"

text \<open>\<open>String.prototype.toLowerCase\<close> on the letters A to Z. No other character
  lower-cases to a letter of the words the results are compared with below.\<close>

definition toLowerCase_char :: "char \<Rightarrow> char" where
  "toLowerCase_char c =
     (case map_of (zip ''ABCDEFGHIJKLMNOPQRSTUVWXYZ'' ''abcdefghijklmnopqrstuvwxyz'') c of
        Some l \<Rightarrow> l
      | None \<Rightarrow> c)"

definition toLowerCase :: "string \<Rightarrow> string" where
  "toLowerCase s = map toLowerCase_char s"

text \<open>\<open>coerceToBool\<close>: \<open>None\<close> is the source's \<open>null\<close>.\<close>

fun coerceToBool :: "json \<Rightarrow> bool option" where
  "coerceToBool (JBool b) = Some b"
| "coerceToBool (JStr v) =
     (let lower = toLowerCase v in
      if lower \<in> set [''true'', ''yes'', ''1'', ''-n''] then Some True
      else if lower \<in> set [''false'', ''no'', ''0''] then Some False
      else None)"
| "coerceToBool (JNum n) = Some (n \<noteq> 0)"
| "coerceToBool _ = None"


text \<open>\<open>remapFunctionCallArgs\<close> mutates \<open>args\<close> in place through a fixed sequence of
  blocks; each block is a function from the object before it to the object after it, named
  after the key it removes. The grep and the glob branch share the text of their first two
  blocks.\<close>

type_synonym js_object = "(string \<times> json) list"

definition remap_description :: "js_object \<Rightarrow> js_object" where
  "remap_description args =
     (case map_of args ''description'' of
        None \<Rightarrow> args
      | Some desc \<Rightarrow>
          let args1 = AList.delete ''description'' args in
          if map_of args1 ''pattern'' = None then AList.update ''pattern'' desc args1
          else args1)"

definition remap_query :: "js_object \<Rightarrow> js_object" where
  "remap_query args =
     (case map_of args ''query'' of
        None \<Rightarrow> args
      | Some query \<Rightarrow>
          let args1 = AList.delete ''query'' args in
          if map_of args1 ''pattern'' = None then AList.update ''pattern'' query args1
          else args1)"

text \<open>\<open>includes.filter(v => typeof v === 'string').join(',')\<close>\<close>

fun string_items :: "json list \<Rightarrow> string list" where
  "string_items [] = []"
| "string_items (JStr v # vs) = v # string_items vs"
| "string_items (_ # vs) = string_items vs"

fun join_comma :: "string list \<Rightarrow> string" where
  "join_comma [] = []"
| "join_comma [v] = v"
| "join_comma (v # vs) = v @ '','' @ join_comma vs"

definition remap_includes :: "js_object \<Rightarrow> js_object" where
  "remap_includes args =
     (case map_of args ''includes'' of
        None \<Rightarrow> args
      | Some includes \<Rightarrow>
          let args1 = AList.delete ''includes'' args in
          if map_of args1 ''include'' = None then
            (let includeStr =
               (case includes of
                  JArr vs \<Rightarrow> join_comma (string_items vs)
                | JStr v \<Rightarrow> v
                | _ \<Rightarrow> [])
             in if includeStr \<noteq> [] then AList.update ''include'' (JStr includeStr) args1
                else args1)
          else args1)"

definition remap_ignore_case :: "js_object \<Rightarrow> js_object" where
  "remap_ignore_case args =
     (case map_of args ''ignore_case'' of
        None \<Rightarrow> args
      | Some ignoreCase \<Rightarrow>
          let args1 = AList.delete ''ignore_case'' args in
          if map_of args1 ''ignoreCase'' = None then AList.update ''ignoreCase'' ignoreCase args1
          else args1)"

definition remap_dash_n :: "js_object \<Rightarrow> js_object" where
  "remap_dash_n args =
     (case map_of args ''-n'' of
        None \<Rightarrow> args
      | Some nVal \<Rightarrow>
          let args1 = AList.delete ''-n'' args in
          (case coerceToBool nVal of
             None \<Rightarrow> args1
           | Some boolVal \<Rightarrow>
               if map_of args1 ''lineNumbers'' = None
               then AList.update ''lineNumbers'' (JBool boolVal) args1
               else args1))"

text \<open>The loop \<open>for (const param of boolParams)\<close>: \<open>coerce_param\<close> is its body.\<close>

definition boolParams :: "string list" where
  "boolParams = [''ignoreCase'', ''lineNumbers'', ''caseSensitive'', ''regex'', ''wholeWord'']"

definition coerce_param :: "string \<Rightarrow> js_object \<Rightarrow> js_object" where
  "coerce_param param args =
     (case map_of args param of
        Some (JStr v) \<Rightarrow>
          (case coerceToBool (JStr v) of
             Some boolVal \<Rightarrow> AList.update param (JBool boolVal) args
           | None \<Rightarrow> args)
      | _ \<Rightarrow> args)"

fun coerce_params :: "string list \<Rightarrow> js_object \<Rightarrow> js_object" where
  "coerce_params [] args = args"
| "coerce_params (param # rest) args = coerce_params rest (coerce_param param args)"

definition remap_grep :: "js_object \<Rightarrow> js_object" where
  "remap_grep args =
     coerce_params boolParams
       (remap_dash_n (remap_ignore_case (remap_includes (remap_query (remap_description args)))))"

definition remap_glob :: "js_object \<Rightarrow> js_object" where
  "remap_glob args = remap_query (remap_description args)"

text \<open>The function returns at once unless \<open>args\<close> is truthy and of type
  \<open>object\<close>. A decoded JSON array passes that test but owns none of the named
  properties below, so every block leaves it as it is.\<close>

definition remapFunctionCallArgs :: "string \<Rightarrow> json \<Rightarrow> json" where
  "remapFunctionCallArgs toolName args =
     (case args of
        JObj props \<Rightarrow>
          (let lowerToolName = toLowerCase toolName in
           if lowerToolName = ''grep'' then JObj (remap_grep props)
           else if lowerToolName = ''glob'' then JObj (remap_glob props)
           else args)
      | _ \<Rightarrow> args)"

text \<open>A boolean parameter is settled when it is not a string that \<open>coerceToBool\<close>
  can turn into a boolean.\<close>

definition settled :: "string \<Rightarrow> js_object \<Rightarrow> bool" where
  "settled param args \<longleftrightarrow>
     (\<forall>v. map_of args param = Some (JStr v) \<longrightarrow> coerceToBool (JStr v) = None)"

text \<open>The keys the function removes, and arguments that are already in the form it
  produces, to run it on.\<close>

definition malformedKeys :: "string list" where
  "malformedKeys = [''description'', ''query'', ''includes'', ''ignore_case'', ''-n'']"

definition canonical_args :: js_object where
  "canonical_args = [(''pattern'', JStr ''needle''), (''include'', JStr ''*.js,*.ts''),
      (''ignoreCase'', JBool True), (''lineNumbers'', JBool False)]"

section \<open>SQLite access (src/auth/database.js)\<close>

text \<open>
  A thrown JavaScript error is a value: its class (\<open>NativeModuleError\<close> with its two
  flags, or any other error), its \<open>code\<close> property when it has one, and its message.
  Every function returns the value or the error it throws, paired with the module's
  variables as the call leaves them.
\<close>

datatype error_class = PlainError | NativeModuleError bool bool

record js_error =
  error_class :: error_class
  code :: "string option"
  message :: string

text \<open>\<open>new Error(msg)\<close> and \<open>new NativeModuleError(msg, rebuildSucceeded,
  restartRequired)\<close>; the class itself is declared in \<open>errors.js\<close>.\<close>

definition Error :: "string \<Rightarrow> js_error" where
  "Error msg = \<lparr>error_class = PlainError, code = None, message = msg\<rparr>"

definition newNativeModuleError :: "string \<Rightarrow> bool \<Rightarrow> bool \<Rightarrow> js_error" where
  "newNativeModuleError msg rebuildSucceeded restartRequired =
     \<lparr>error_class = NativeModuleError rebuildSucceeded restartRequired, code = None, message = msg\<rparr>"

text \<open>A connection object of the driver: its \<open>open\<close> property (\<open>is_open\<close>) and
  whether the module has stored a prepared statement on it (\<open>_cachedAuthStmt\<close>).\<close>

record connection =
  is_open :: bool
  cachedAuthStmt :: bool

text \<open>
  What lies outside the module, as the module sees it during one call:
  \<^item> \<open>require_sqlite\<close>: what \<open>require('better-sqlite3')\<close> does, load or throw;
  \<^item> \<open>isModuleVersionError\<close>, \<open>attemptAutoRebuild\<close>: the two helpers imported from
    \<open>native-module-helper.js\<close>;
  \<^item> \<open>reload_sqlite\<close>: what the second attempt does after a rebuild
    (\<open>require.resolve\<close>, \<open>clearRequireCache\<close>, \<open>require\<close>);
  \<^item> \<open>open_database\<close>: \<open>new Db(dbPath, {readonly: true, fileMustExist: true})\<close>, a
    connection or the error the driver throws;
  \<^item> \<open>prepare_auth\<close>: \<open>db.prepare\<close> of the query for key \<open>antigravityAuthStatus\<close>;
  \<^item> \<open>get_auth_row\<close>: \<open>stmt.get()\<close>, an error, no row (\<open>None\<close>), or a row whose
    \<open>value\<close> column is \<open>NULL\<close> (\<open>Some None\<close>) or a text;
  \<^item> \<open>json_parse\<close>: \<open>JSON.parse\<close>, a value or the \<open>SyntaxError\<close> it throws.
\<close>

record environment =
  require_sqlite :: "js_error + unit"
  isModuleVersionError :: "js_error \<Rightarrow> bool"
  attemptAutoRebuild :: "js_error \<Rightarrow> bool"
  reload_sqlite :: "js_error + unit"
  open_database :: "string \<Rightarrow> js_error + unit"
  prepare_auth :: "string \<Rightarrow> js_error + unit"
  get_auth_row :: "string \<Rightarrow> js_error + string option option"
  json_parse :: "string \<Rightarrow> js_error + json"

text \<open>The module's variables: \<open>Database\<close> (the constructor is loaded),
  \<open>moduleLoadError\<close> and the connection cache \<open>dbCache\<close>, a \<open>Map\<close> from paths to
  connections.\<close>

record module_state =
  Database :: bool
  moduleLoadError :: "js_error option"
  dbCache :: "(string \<times> connection) list"

definition initial_module :: module_state where
  "initial_module = \<lparr>Database = False, moduleLoadError = None, dbCache = []\<rparr>"

text \<open>After a successful load the source replaces \<open>loadDatabaseModule\<close> by a
  function that returns \<open>Database\<close>; that is what the first test below returns too.\<close>

definition loadDatabaseModule :: "environment \<Rightarrow> module_state \<Rightarrow> (js_error + unit) \<times> module_state" where
  "loadDatabaseModule env st =
     (if Database st then (Inr (), st)
      else case moduleLoadError st of
        Some e \<Rightarrow> (Inl e, st)
      | None \<Rightarrow>
          (case require_sqlite env of
             Inr _ \<Rightarrow> (Inr (), st\<lparr>Database := True\<rparr>)
           | Inl error \<Rightarrow>
               if isModuleVersionError env error then
                 (if attemptAutoRebuild env error then
                    (case reload_sqlite env of
                       Inr _ \<Rightarrow> (Inr (), st\<lparr>Database := True\<rparr>)
                     | Inl retryError \<Rightarrow>
                         let e = newNativeModuleError
                           ''Native module rebuild completed. Please restart the server to apply the fix.''
                           True True
                         in (Inl e, st\<lparr>moduleLoadError := Some e\<rparr>))
                  else
                    let e = newNativeModuleError
                      (''Failed to auto-rebuild native module. Please run manually:'' @ [CHR 0x0A] @
                       ''  npm rebuild better-sqlite3'' @ [CHR 0x0A] @
                       ''Or if using npx, find the package location in the error and run:'' @ [CHR 0x0A] @
                       ''  cd /path/to/better-sqlite3 && npm rebuild'')
                      False False
                    in (Inl e, st\<lparr>moduleLoadError := Some e\<rparr>))
               else (Inl error, st)))"

text \<open>The block \<open>if (dbCache.has(dbPath)) ...\<close> of \<open>getDatabaseConnection\<close>: an open
  cached connection is returned, a closed one is dropped from the cache.\<close>

definition cached_connection ::
  "module_state \<Rightarrow> string \<Rightarrow> connection option \<times> module_state" where
  "cached_connection st dbPath =
     (case map_of (dbCache st) dbPath of
        Some cachedDb \<Rightarrow>
          if is_open cachedDb then (Some cachedDb, st)
          else (None, st\<lparr>dbCache := AList.delete dbPath (dbCache st)\<rparr>)
      | None \<Rightarrow> (None, st))"

definition getDatabaseConnection ::
  "environment \<Rightarrow> module_state \<Rightarrow> string \<Rightarrow> (js_error + connection) \<times> module_state" where
  "getDatabaseConnection env st dbPath =
     (case loadDatabaseModule env st of
        (Inl e, st1) \<Rightarrow> (Inl e, st1)
      | (Inr _, st1) \<Rightarrow>
          (case cached_connection st1 dbPath of
             (Some cachedDb, st2) \<Rightarrow> (Inr cachedDb, st2)
           | (None, st2) \<Rightarrow>
               (case open_database env dbPath of
                  Inl e \<Rightarrow> (Inl e, st2)
                | Inr _ \<Rightarrow>
                    let db = \<lparr>is_open = True, cachedAuthStmt = False\<rparr>
                    in (Inr db, st2\<lparr>dbCache := AList.update dbPath db (dbCache st2)\<rparr>))))"

text \<open>JavaScript truthiness of a JSON value.\<close>

fun truthy :: "json \<Rightarrow> bool" where
  "truthy JNull = False"
| "truthy (JBool b) = b"
| "truthy (JNum n) = (n \<noteq> 0)"
| "truthy (JStr v) = (v \<noteq> [])"
| "truthy (JArr vs) = True"
| "truthy (JObj props) = True"

text \<open>The body of the \<open>try\<close> block of \<open>getAuthStatus\<close>. Storing the prepared
  statement on the connection changes the object the cache holds. Reading \<open>apiKey\<close> off
  \<open>null\<close> throws a \<open>TypeError\<close> (its message is the engine's); off any other value
  that is not an object with that property it gives \<open>undefined\<close>.\<close>

definition readAuthStatus ::
  "environment \<Rightarrow> module_state \<Rightarrow> string \<Rightarrow> (js_error + json) \<times> module_state" where
  "readAuthStatus env st dbPath =
     (case getDatabaseConnection env st dbPath of
        (Inl e, st1) \<Rightarrow> (Inl e, st1)
      | (Inr db, st1) \<Rightarrow>
          (case (if cachedAuthStmt db then Inr st1
                 else case prepare_auth env dbPath of
                   Inl e \<Rightarrow> Inl e
                 | Inr _ \<Rightarrow>
                     Inr (st1\<lparr>dbCache :=
                            AList.update dbPath (db\<lparr>cachedAuthStmt := True\<rparr>) (dbCache st1)\<rparr>)) of
             Inl e \<Rightarrow> (Inl e, st1)
           | Inr st2 \<Rightarrow>
               (case get_auth_row env dbPath of
                  Inl e \<Rightarrow> (Inl e, st2)
                | Inr None \<Rightarrow> (Inl (Error ''No auth status found in database''), st2)
                | Inr (Some None) \<Rightarrow> (Inl (Error ''No auth status found in database''), st2)
                | Inr (Some (Some v)) \<Rightarrow>
                    if v = [] then (Inl (Error ''No auth status found in database''), st2)
                    else
                      (case json_parse env v of
                         Inl e \<Rightarrow> (Inl e, st2)
                       | Inr JNull \<Rightarrow> (Inl (Error ''Cannot read properties of null (reading 'apiKey')''), st2)
                       | Inr authData \<Rightarrow>
                           (case (case authData of JObj props \<Rightarrow> map_of props ''apiKey'' | _ \<Rightarrow> None) of
                              None \<Rightarrow> (Inl (Error ''Auth data missing apiKey field''), st2)
                            | Some apiKey \<Rightarrow>
                                if \<not> truthy apiKey
                                then (Inl (Error ''Auth data missing apiKey field''), st2)
                                else (Inr authData, st2))))))"

text \<open>\<open>getAuthStatus\<close>: the \<open>try\<close> block and the \<open>catch\<close> clause that rewrites
  or rethrows the error.\<close>

definition getAuthStatus ::
  "environment \<Rightarrow> module_state \<Rightarrow> string \<Rightarrow> (js_error + json) \<times> module_state" where
  "getAuthStatus env st dbPath =
     (case readAuthStatus env st dbPath of
        (Inr authData, st1) \<Rightarrow> (Inr authData, st1)
      | (Inl error, st1) \<Rightarrow>
          if code error = Some ''SQLITE_CANTOPEN'' then
            (Inl (Error (''Database not found at '' @ dbPath @ ''. '' @
                   ''Make sure Antigravity is installed and you are logged in.'')), st1)
          else if sublist ''No auth status'' (message error)
               \<or> sublist ''missing apiKey'' (message error) then (Inl error, st1)
          else if (case error_class error of NativeModuleError _ _ \<Rightarrow> True | PlainError \<Rightarrow> False)
          then (Inl error, st1)
          else (Inl (Error (''Failed to read Antigravity database: '' @ message error)), st1))"

definition isDatabaseAccessible ::
  "environment \<Rightarrow> module_state \<Rightarrow> string \<Rightarrow> (js_error + bool) \<times> module_state" where
  "isDatabaseAccessible env st dbPath =
     (case getDatabaseConnection env st dbPath of
        (Inr _, st1) \<Rightarrow> (Inr True, st1)
      | (Inl _, st1) \<Rightarrow> (Inr False, st1))"


text \<open>A call succeeded when it returned rather than threw; a path has an open
  connection when the cache holds one for it.\<close>

definition succeeded :: "'e + 'a \<Rightarrow> bool" where
  "succeeded r = (case r of Inr _ \<Rightarrow> True | Inl _ \<Rightarrow> False)"

definition has_open_connection :: "module_state \<Rightarrow> string \<Rightarrow> bool" where
  "has_open_connection st dbPath =
     (case map_of (dbCache st) dbPath of Some c \<Rightarrow> is_open c | None \<Rightarrow> False)"

text \<open>
  Concrete surroundings to run the module in: the error the driver throws for a file it
  cannot open, a native module built for another Node.js version whose rebuild fails
  (\<open>stale_module\<close>), a disk without any database (\<open>empty_disk\<close>), and the disk of
  the module's test, with one database holding the test's auth record (\<open>test_disk\<close>).
  The text \<open>{auth}\<close> stands for the JSON text of that record.
\<close>

definition cantopen :: js_error where
  "cantopen = \<lparr>error_class = PlainError, code = Some ''SQLITE_CANTOPEN'',
      message = ''unable to open database file''\<rparr>"

definition version_mismatch :: js_error where
  "version_mismatch = \<lparr>error_class = PlainError, code = Some ''ERR_DLOPEN_FAILED'',
      message = ''The module was compiled against a different Node.js version''\<rparr>"

definition empty_disk :: environment where
  "empty_disk = \<lparr>require_sqlite = Inr (), isModuleVersionError = (\<lambda>e. False),
      attemptAutoRebuild = (\<lambda>e. False), reload_sqlite = Inr (),
      open_database = (\<lambda>p. Inl cantopen), prepare_auth = (\<lambda>p. Inl cantopen),
      get_auth_row = (\<lambda>p. Inl cantopen), json_parse = (\<lambda>v. Inl (Error ''Unexpected token''))\<rparr>"

definition stale_module :: environment where
  "stale_module = empty_disk\<lparr>require_sqlite := Inl version_mismatch,
      isModuleVersionError := (\<lambda>e. code e = Some ''ERR_DLOPEN_FAILED'')\<rparr>"

definition test_auth :: json where
  "test_auth = JObj [(''apiKey'', JStr ''test-api-key''), (''email'', JStr ''test@example.com''),
      (''name'', JStr ''Test User'')]"

definition test_disk :: environment where
  "test_disk = empty_disk\<lparr>
      open_database := (\<lambda>p. if p = ''./test-database.vscdb'' then Inr () else Inl cantopen),
      prepare_auth := (\<lambda>p. Inr ()),
      get_auth_row := (\<lambda>p. Inr (Some (Some ''{auth}''))),
      json_parse := (\<lambda>v. if v = ''{auth}'' then Inr test_auth else Inl (Error ''Unexpected token''))\<rparr>"

text \<open>
  Further surroundings:
  \<^item> \<open>stale_test_disk\<close>: the test's disk, database present, but the native module is
    built for another Node.js version and its rebuild fails;
  \<^item> \<open>unlinked_disk\<close>: the test's disk after the database file has been deleted: the
    driver can no longer open the path, while a connection opened before still answers
    queries;
  \<^item> \<open>opened_module\<close>, \<open>warm_module\<close>: the module after \<open>isDatabaseAccessible\<close>,
    respectively \<open>getAuthStatus\<close>, has run once on the test's database, which leaves an
    open connection in the cache;
  \<^item> \<open>missing_directory\<close>: a path whose directory does not exist, which the driver
    refuses with a \<open>TypeError\<close> that carries no \<open>code\<close>;
  \<^item> \<open>empty_key_disk\<close>: a database whose stored record has the empty array as its
    \<open>apiKey\<close> (the text \<open>{empty-key}\<close> stands for its JSON text).
\<close>

definition stale_test_disk :: environment where
  "stale_test_disk = test_disk\<lparr>require_sqlite := Inl version_mismatch,
      isModuleVersionError := (\<lambda>e. code e = Some ''ERR_DLOPEN_FAILED'')\<rparr>"

definition unlinked_disk :: environment where
  "unlinked_disk = test_disk\<lparr>open_database := (\<lambda>p. Inl cantopen)\<rparr>"

definition opened_module :: module_state where
  "opened_module = snd (isDatabaseAccessible test_disk initial_module ''./test-database.vscdb'')"





section \<open>Account pool (specification section 4.1)\<close>

text \<open>
  The account pool is a part of this program whose source is not among the files at hand:
  the dispatch test only replaces it by a mock. Every definition of this section is
  therefore written from the specification, sections 3 and 4.1, and says so.
\<close>

text \<open>Modelled from the spec: the Account of section 3, whose source is missing. Its
  stable identifier is the \<open>email\<close> (the name the test's mock uses), \<open>rateLimitedUntil\<close>
  is absent or a timestamp, \<open>consecutiveFailures\<close> is a non-negative counter,
  \<open>lastUsed\<close> is what least-recently-used compares, and \<open>invalid\<close> marks an account
  excluded for good. The cached token and project play no part in selection.\<close>

record account =
  email :: string
  rateLimitedUntil :: "int option"
  consecutiveFailures :: nat
  lastUsed :: int
  invalid :: bool

text \<open>Modelled from the spec: an account's \<open>rateLimitedUntil\<close> is in the future
  (section 3); the pool's source is missing.\<close>

definition rateLimited :: "int \<Rightarrow> account \<Rightarrow> bool" where
  "rateLimited now a = (case rateLimitedUntil a of None \<Rightarrow> False | Some t \<Rightarrow> now < t)"

text \<open>Modelled from the spec: ``an account is available iff \<open>rateLimitedUntil\<close> is absent
  or in the past'' (section 3), and an account marked invalid is never selected again
  (section 4.1); the pool's source is missing.\<close>

definition isAvailable :: "int \<Rightarrow> account \<Rightarrow> bool" where
  "isAvailable now a \<longleftrightarrow> \<not> invalid a \<and> \<not> rateLimited now a"

text \<open>Modelled from the spec: \<open>getAvailableAccounts()\<close> of section 4.1, ``sequence of
  accounts currently not rate-limited''; its source is missing.\<close>

definition getAvailableAccounts :: "int \<Rightarrow> account list \<Rightarrow> account list" where
  "getAvailableAccounts now accounts = filter (isAvailable now) accounts"

text \<open>Modelled from the spec: the selection policy of section 4.1, ``prefers the account
  with the fewest \<open>consecutiveFailures\<close>, ties broken by least-recently-used''; its source
  is missing. \<open>preferred a b\<close> is the better of the two, \<open>a\<close> when they are level.\<close>

definition preferred :: "account \<Rightarrow> account \<Rightarrow> account" where
  "preferred a b =
     (if consecutiveFailures b < consecutiveFailures a
         \<or> (consecutiveFailures b = consecutiveFailures a \<and> lastUsed b < lastUsed a)
      then b else a)"

text \<open>Modelled from the spec: the remaining rate-limit durations of the accounts that
  are rate-limited now (section 4.1); the pool's source is missing.\<close>

definition remainingWaits :: "int \<Rightarrow> account list \<Rightarrow> int list" where
  "remainingWaits now accounts =
     concat (map (\<lambda>a. case rateLimitedUntil a of
                          None \<Rightarrow> []
                        | Some t \<Rightarrow> if now < t then [t - now] else []) accounts)"

text \<open>Modelled from the spec: ``minimum remaining rate-limit duration across all
  accounts'' (section 4.1), named as the test's mock names it; its source is missing. The
  specification gives no value for a pool without a rate-limited account; it is 0 here.\<close>

definition getMinWaitTimeMs :: "int \<Rightarrow> account list \<Rightarrow> int" where
  "getMinWaitTimeMs now accounts =
     (case remainingWaits now accounts of [] \<Rightarrow> 0 | w # ws \<Rightarrow> fold min ws w)"

text \<open>Modelled from the spec: \<open>selectAccount()\<close> of section 4.1, whose source is missing:
  ``either \<open>{account, waitMs: 0}\<close> for an available account, chosen by [the] policy, or, if
  none are available, \<open>{account: null, waitMs: minimum remaining rate-limit duration across
  all accounts}\<close>''.\<close>

definition selectAccount :: "int \<Rightarrow> account list \<Rightarrow> account option \<times> int" where
  "selectAccount now accounts =
     (case getAvailableAccounts now accounts of
        [] \<Rightarrow> (None, getMinWaitTimeMs now accounts)
      | a # as \<Rightarrow> (Some (fold (\<lambda>b best. preferred best b) as a), 0))"

text \<open>Modelled from the spec: \<open>clearExpiredLimits()\<close> of section 4.1, ``sweeps accounts
  whose \<open>rateLimitedUntil\<close> has passed, resetting the field''; its source is missing.\<close>

definition clearExpiredLimits :: "int \<Rightarrow> account list \<Rightarrow> account list" where
  "clearExpiredLimits now accounts =
     map (\<lambda>a. case rateLimitedUntil a of
                 None \<Rightarrow> a
               | Some t \<Rightarrow> if now < t then a else a\<lparr>rateLimitedUntil := None\<rparr>) accounts"

text \<open>Modelled from the spec: \<open>notifySuccess\<close> ``resets \<open>consecutiveFailures\<close> to 0''
  (section 3); its source is missing.\<close>

definition notifySuccess :: "string \<Rightarrow> account list \<Rightarrow> account list" where
  "notifySuccess k accounts =
     map (\<lambda>a. if email a = k then a\<lparr>consecutiveFailures := 0\<rparr> else a) accounts"

text \<open>Modelled from the spec: \<open>notifyFailure\<close> increments \<open>consecutiveFailures\<close>
  (section 3); its source is missing.\<close>

definition notifyFailure :: "string \<Rightarrow> account list \<Rightarrow> account list" where
  "notifyFailure k accounts =
     map (\<lambda>a. if email a = k then a\<lparr>consecutiveFailures := Suc (consecutiveFailures a)\<rparr>
               else a) accounts"

text \<open>Modelled from the spec: \<open>notifyRateLimit\<close> ``sets \<open>rateLimitedUntil\<close>''
  (section 3); its source is missing.\<close>

definition notifyRateLimit :: "string \<Rightarrow> int \<Rightarrow> account list \<Rightarrow> account list" where
  "notifyRateLimit k untilTs accounts =
     map (\<lambda>a. if email a = k then a\<lparr>rateLimitedUntil := Some untilTs\<rparr> else a) accounts"

text \<open>Modelled from the spec: \<open>markInvalid\<close> ``permanently removes the account from future
  \<open>selectAccount\<close> results'' (section 4.1); its source is missing.\<close>

definition markInvalid :: "string \<Rightarrow> account list \<Rightarrow> account list" where
  "markInvalid k accounts =
     map (\<lambda>a. if email a = k then a\<lparr>invalid := True\<rparr> else a) accounts"



section \<open>Dispatcher and stream translator (specification sections 4.2 and 4.3)\<close>

text \<open>
  The two entry points \<open>sendMessageStream\<close> and \<open>sendMessage\<close> live in
  \<open>cloudcode/streaming-handler.js\<close> and \<open>cloudcode/message-handler.js\<close>, which are not
  among the files at hand: only their failover test is. Every definition of this section
  is therefore written from the specification, sections 3, 4.2, 4.3, 6 and 7, and says so.
\<close>

text \<open>Modelled from the spec: the error taxonomy of section 7; the dispatcher's source is
  missing.\<close>

datatype error_kind =
    CapacityExhausted | RateLimited | InvalidCredential | TransportFailure
  | MalformedUpstreamFrame | PoolExhausted | RetriesExhausted

text \<open>Modelled from the spec: the StreamEvent of section 3, ``one of text-delta,
  tool-call-start/args/end, usage-update, error, done''; the translator's source is
  missing.\<close>

datatype stream_event =
    TextDelta string
  | ToolCallStart string | ToolCallArgs string | ToolCallEnd
  | UsageUpdate nat nat
  | ErrorEvent error_kind
  | Done

text \<open>Modelled from the spec: one decoded block of the upstream body (sections 4.3 and 6):
  text, a tool call with its arguments, usage counters, a block that does not parse, or a
  capacity-exhaustion signal arriving inside the body; the translator's source is missing.\<close>

datatype frame =
    TextFrame string
  | ToolCallFrame string string
  | UsageFrame nat nat
  | MalformedFrame
  | CapacitySignal

text \<open>Modelled from the spec: the StreamTranslator of section 4.3, whose source is
  missing. It keeps the order of the frames, emits the running usage whenever the upstream
  reports one, skips a malformed frame, signals \<open>done\<close> at the end of the body, and
  surfaces a capacity signal inside the body as a terminal error event (section 4.2,
  step 5), after which nothing is forwarded. The first argument is the usage seen so far;
  each call starts from \<open>(0, 0)\<close>.\<close>

fun translate :: "nat \<times> nat \<Rightarrow> frame list \<Rightarrow> stream_event list" where
  "translate totals [] = [Done]"
| "translate totals (TextFrame t # frames) = TextDelta t # translate totals frames"
| "translate totals (ToolCallFrame k args # frames) =
     ToolCallStart k # ToolCallArgs args # ToolCallEnd # translate totals frames"
| "translate (i, out) (UsageFrame di dout # frames) =
     UsageUpdate (i + di) (out + dout) # translate (i + di, out + dout) frames"
| "translate totals (MalformedFrame # frames) = translate totals frames"
| "translate totals (CapacitySignal # frames) = [ErrorEvent CapacityExhausted]"

text \<open>Modelled from the spec: the four ways step 4 of section 4.2 classifies an upstream
  answer: 2xx with its body; 503 with the capacity-exhaustion reason code; 429 or an
  account-scoped rate-limit signal, with the reset time the provider may supply; any other
  error status or transport failure. The dispatcher's source is missing.\<close>

datatype response =
    Success "frame list"
  | CapacityExhausted503
  | RateLimited429 "int option"
  | Failure

text \<open>Modelled from the spec: the configuration the dispatcher consumes (section 6): the
  ordered endpoint fallback list, the maximum capacity-retry count, the backoff tiers, the
  default rate-limit duration, and the consecutive-failure threshold of step 4. The
  configuration's source is missing.\<close>

record config =
  endpoints :: "string list"
  maxCapacityRetries :: nat
  capacityBackoffTiersMs :: "int list"
  defaultRateLimitMs :: int
  failureThreshold :: nat

text \<open>Modelled from the spec: the state of one logical request (the DispatchAttempt of
  section 3 together with the pool it acts on): the accounts, the clock (waiting adds to
  it), the upstream calls made so far in order, the index of the current endpoint, the
  capacity-retry attempt counter, and the number of waits for an account. The dispatcher's
  source is missing.\<close>

record dispatch_state =
  pool :: "account list"
  clock :: int
  calls :: "string list"
  endpointIndex :: nat
  attempt :: nat
  selectionWaits :: nat

text \<open>Modelled from the spec: the two non-terminal states of the state machine of
  section 4.2, SELECTING and CALLING (with the account in use); the dispatcher's source is
  missing.\<close>

datatype phase = Selecting | Calling string

text \<open>Modelled from the spec: how the attempt loop ends (section 4.2): the state it ends
  in, and either a fatal error or the body of the 2xx answer; the dispatcher's source is
  missing.\<close>

record dispatch_result =
  final :: dispatch_state
  outcome :: "error_kind + frame list"

text \<open>Modelled from the spec: ``wait according to \<open>BackoffPlan[attempt index]\<close> (clamped
  to the last tier if the index exceeds the plan length)'' (section 4.2); its source is
  missing.\<close>

definition backoff :: "config \<Rightarrow> nat \<Rightarrow> int" where
  "backoff cfg n =
     (case capacityBackoffTiersMs cfg of
        [] \<Rightarrow> 0
      | t # ts \<Rightarrow> (t # ts) ! min n (length ts))"

text \<open>Modelled from the spec: the \<open>consecutiveFailures\<close> of the account in use
  (section 4.2, step 4); its source is missing.\<close>

definition failures_of :: "string \<Rightarrow> account list \<Rightarrow> nat" where
  "failures_of k accounts =
     (case find (\<lambda>a. email a = k) accounts of None \<Rightarrow> 0 | Some a \<Rightarrow> consecutiveFailures a)"

text \<open>Modelled from the spec: the attempt loop of section 4.2, whose source is missing.
  \<open>transport n url\<close> is the answer to call number \<open>n\<close> (counted from 0) when it goes
  to \<open>url\<close>; \<open>resolves\<close> tells whether an account's token and project resolve. The
  loop may wait and retry, so it runs on fuel: \<open>None\<close> means the fuel ran out.
  \<^item> Selecting (steps 1 and 2): clear the expired limits and select. Without an account,
    wait \<open>waitMs\<close> and select again, at most \<open>maxCapacityRetries\<close> times, then fail
    with \<open>PoolExhausted\<close>. An account whose credentials do not resolve is marked invalid
    and the next one is tried.
  \<^item> Calling (steps 3 and 4): past the last endpoint the list is exhausted
    (\<open>RetriesExhausted\<close>). Otherwise the current endpoint is called. 2xx: notify success
    and end with the body. 503 with the capacity reason: while the attempt counter is below
    \<open>maxCapacityRetries\<close>, wait the backoff, advance to the next endpoint, count the
    attempt and call again with the same account; else fail with \<open>CapacityExhausted\<close>.
    429: notify the rate limit and select again. Anything else: notify the failure and
    select again while the account's failures are below the threshold, else fail.
\<close>

fun attempt_loop ::
  "config \<Rightarrow> (nat \<Rightarrow> string \<Rightarrow> response) \<Rightarrow> (string \<Rightarrow> bool) \<Rightarrow> nat \<Rightarrow> phase
     \<Rightarrow> dispatch_state \<Rightarrow> dispatch_result option" where
  "attempt_loop cfg transport resolves 0 ph st = None"
| "attempt_loop cfg transport resolves (Suc fuel) Selecting st =
     (let accounts = clearExpiredLimits (clock st) (pool st) in
      case selectAccount (clock st) accounts of
        (None, waitMs) \<Rightarrow>
          if selectionWaits st < maxCapacityRetries cfg
          then attempt_loop cfg transport resolves fuel Selecting
                 (st\<lparr>pool := accounts, clock := clock st + waitMs,
                     selectionWaits := Suc (selectionWaits st)\<rparr>)
          else Some \<lparr>final = st\<lparr>pool := accounts\<rparr>, outcome = Inl PoolExhausted\<rparr>
      | (Some a, waitMs) \<Rightarrow>
          if resolves (email a)
          then attempt_loop cfg transport resolves fuel (Calling (email a)) (st\<lparr>pool := accounts\<rparr>)
          else attempt_loop cfg transport resolves fuel Selecting
                 (st\<lparr>pool := markInvalid (email a) accounts\<rparr>))"
| "attempt_loop cfg transport resolves (Suc fuel) (Calling acct) st =
     (if length (endpoints cfg) \<le> endpointIndex st
      then Some \<lparr>final = st, outcome = Inl RetriesExhausted\<rparr>
      else
        let endpoint = endpoints cfg ! endpointIndex st;
            st1 = st\<lparr>calls := calls st @ [endpoint]\<rparr>
        in case transport (length (calls st)) endpoint of
          Success body \<Rightarrow>
            Some \<lparr>final = st1\<lparr>pool := notifySuccess acct (pool st1)\<rparr>, outcome = Inr body\<rparr>
        | CapacityExhausted503 \<Rightarrow>
            if attempt st < maxCapacityRetries cfg
            then attempt_loop cfg transport resolves fuel (Calling acct)
                   (st1\<lparr>clock := clock st1 + backoff cfg (attempt st),
                        endpointIndex := Suc (endpointIndex st),
                        attempt := Suc (attempt st)\<rparr>)
            else Some \<lparr>final = st1, outcome = Inl CapacityExhausted\<rparr>
        | RateLimited429 reset \<Rightarrow>
            attempt_loop cfg transport resolves fuel Selecting
              (st1\<lparr>pool := notifyRateLimit acct
                   (case reset of Some t \<Rightarrow> t | None \<Rightarrow> clock st1 + defaultRateLimitMs cfg)
                   (pool st1)\<rparr>)
        | Failure \<Rightarrow>
            let accounts = notifyFailure acct (pool st1) in
            if failures_of acct accounts < failureThreshold cfg
            then attempt_loop cfg transport resolves fuel Selecting (st1\<lparr>pool := accounts\<rparr>)
            else Some \<lparr>final = st1\<lparr>pool := accounts\<rparr>, outcome = Inl TransportFailure\<rparr>)"

text \<open>Modelled from the spec: the state a logical request starts in: the first endpoint
  of the list, no call made, no retry counted (section 4.2); its source is missing.\<close>

definition start :: "account list \<Rightarrow> int \<Rightarrow> dispatch_state" where
  "start accounts now =
     \<lparr>pool = accounts, clock = now, calls = [], endpointIndex = 0, attempt = 0,
      selectionWaits = 0\<rparr>"

text \<open>Modelled from the spec: what the caller of the streaming entry point observes, the
  events in order, together with the upstream calls the request made; the entry point's
  source is missing.\<close>

record stream_result =
  upstream_calls :: "string list"
  events :: "stream_event list"

text \<open>Modelled from the spec: the streaming entry point of section 4.2, whose source
  (\<open>cloudcode/streaming-handler.js\<close>) is missing: the attempt loop, then the events of
  the 2xx body, or the one fatal error.\<close>

definition sendMessageStream ::
  "config \<Rightarrow> (nat \<Rightarrow> string \<Rightarrow> response) \<Rightarrow> (string \<Rightarrow> bool) \<Rightarrow> nat \<Rightarrow> account list \<Rightarrow> int
     \<Rightarrow> stream_result option" where
  "sendMessageStream cfg transport resolves fuel accounts now =
     (case attempt_loop cfg transport resolves fuel Selecting (start accounts now) of
        None \<Rightarrow> None
      | Some r \<Rightarrow>
          Some \<lparr>upstream_calls = calls (final r),
                events = (case outcome r of
                            Inr body \<Rightarrow> translate (0, 0) body
                          | Inl kind \<Rightarrow> [ErrorEvent kind])\<rparr>)"

text \<open>Modelled from the spec: the single aggregated response of section 4.2: the text, the
  tool calls with their arguments, and the last usage figure; its source is missing.\<close>

record message =
  content :: string
  tool_calls :: "(string \<times> string) list"
  usage :: "nat \<times> nat"

text \<open>Modelled from the spec: accumulating the events for the aggregated entry point
  (section 4.2, step 4); an error event makes the whole response that error. Its source is
  missing.\<close>

fun aggregate :: "message \<Rightarrow> stream_event list \<Rightarrow> error_kind + message" where
  "aggregate m [] = Inr m"
| "aggregate m (TextDelta t # es) = aggregate (m\<lparr>content := content m @ t\<rparr>) es"
| "aggregate m (ToolCallStart k # es) = aggregate (m\<lparr>tool_calls := tool_calls m @ [(k, [])]\<rparr>) es"
| "aggregate m (ToolCallArgs a # es) =
     aggregate (m\<lparr>tool_calls := (case rev (tool_calls m) of
                                    [] \<Rightarrow> []
                                  | (k, b) # cs \<Rightarrow> rev ((k, b @ a) # cs))\<rparr>) es"
| "aggregate m (ToolCallEnd # es) = aggregate m es"
| "aggregate m (UsageUpdate i out # es) = aggregate (m\<lparr>usage := (i, out)\<rparr>) es"
| "aggregate m (ErrorEvent kind # es) = Inl kind"
| "aggregate m (Done # es) = Inr m"

text \<open>Modelled from the spec: what the caller of the aggregated entry point observes,
  together with the upstream calls the request made; the entry point's source is missing.\<close>

record message_result =
  message_calls :: "string list"
  response :: "error_kind + message"

text \<open>Modelled from the spec: the aggregated entry point of section 4.2, whose source
  (\<open>cloudcode/message-handler.js\<close>) is missing: the same attempt loop, then the
  accumulated events.\<close>

definition sendMessage ::
  "config \<Rightarrow> (nat \<Rightarrow> string \<Rightarrow> response) \<Rightarrow> (string \<Rightarrow> bool) \<Rightarrow> nat \<Rightarrow> account list \<Rightarrow> int
     \<Rightarrow> message_result option" where
  "sendMessage cfg transport resolves fuel accounts now =
     (case attempt_loop cfg transport resolves fuel Selecting (start accounts now) of
        None \<Rightarrow> None
      | Some r \<Rightarrow>
          Some \<lparr>message_calls = calls (final r),
                response = (case outcome r of
                              Inr body \<Rightarrow>
                                aggregate \<lparr>content = [], tool_calls = [], usage = (0, 0)\<rparr>
                                  (translate (0, 0) body)
                            | Inl kind \<Rightarrow> Inl kind)\<rparr>)"

text \<open>No call of the list got a 2xx answer; and a finished request is committed when the
  only call that got a 2xx answer, if any, is its last one.\<close>

definition no_success :: "(nat \<Rightarrow> string \<Rightarrow> response) \<Rightarrow> string list \<Rightarrow> bool" where
  "no_success transport cs \<longleftrightarrow>
     (\<forall>j<length cs. case transport j (cs ! j) of Success body \<Rightarrow> False | _ \<Rightarrow> True)"

definition committed :: "(nat \<Rightarrow> string \<Rightarrow> response) \<Rightarrow> dispatch_result \<Rightarrow> bool" where
  "committed transport r \<longleftrightarrow>
     (case outcome r of
        Inl kind \<Rightarrow> no_success transport (calls (final r))
      | Inr body \<Rightarrow>
          (\<exists>cs e. calls (final r) = cs @ [e] \<and> no_success transport cs
             \<and> transport (length cs) e = Success body))"

text \<open>The setting of the failover test (\<open>tests/test-endpoint-failover.cjs\<close>): two
  endpoints, three capacity retries, one backoff tier of 10 ms, one account whose
  credentials resolve, and a transport that answers the first endpoint with the capacity
  503 and the second with a one-frame body. \<open>broken_stream\<close> instead answers every call
  with a 2xx body that carries a capacity signal after two decoded frames.\<close>

definition test_config :: config where
  "test_config = \<lparr>endpoints = [''https://daily.example'', ''https://prod.example''],
      maxCapacityRetries = 3, capacityBackoffTiersMs = [10], defaultRateLimitMs = 60000,
      failureThreshold = 3\<rparr>"

definition test_transport :: "nat \<Rightarrow> string \<Rightarrow> response" where
  "test_transport n url =
     (if url = ''https://daily.example'' then CapacityExhausted503
      else if url = ''https://prod.example'' then Success [TextFrame ''Stream success'']
      else Failure)"

definition test_pool :: "account list" where
  "test_pool = [\<lparr>email = ''test@example.com'', rateLimitedUntil = None, consecutiveFailures = 0,
      lastUsed = 0, invalid = False\<rparr>]"

definition always_resolves :: "string \<Rightarrow> bool" where
  "always_resolves k = True"

definition broken_stream :: "nat \<Rightarrow> string \<Rightarrow> response" where
  "broken_stream n url =
     Success [TextFrame ''a'', MalformedFrame, UsageFrame 1 2, CapacitySignal, TextFrame ''b'']"

section \<open>Properties of the signature cache\<close>

subsection \<open>The sweep loops\<close>

lemma delete_middle:
  "k \<notin> fst ` set pre \<Longrightarrow> k \<notin> fst ` set rest \<Longrightarrow>
     AList.delete k (pre @ (k, e) # rest) = pre @ rest"
  by (induction pre) (force simp: AList.delete_eq filter_id_conv)+

lemma sweep_signatures_suffix:
  "distinct (map fst (pre @ es)) \<Longrightarrow>
     sweep_signatures ttl now es (pre @ es)
       = pre @ filter (\<lambda>(k, e). \<not> now - timestamp e > ttl) es"
proof (induction es arbitrary: pre)
  case Nil
  then show ?case by simp
next
  case (Cons p es)
  obtain k e where p: "p = (k, e)" by (cases p)
  from Cons.prems p have k: "k \<notin> fst ` set pre" "k \<notin> fst ` set es"
    by auto
  show ?case
  proof (cases "now - timestamp e > ttl")
    case True
    from Cons.prems p have "distinct (map fst (pre @ es))" by auto
    from Cons.IH [OF this] True k show ?thesis
      by (simp add: p delete_middle)
  next
    case False
    from Cons.prems p have "distinct (map fst ((pre @ [(k, e)]) @ es))" by auto
    from Cons.IH [OF this] False show ?thesis
      by (simp add: p)
  qed
qed

lemma sweep_thinking_suffix:
  "distinct (map fst (pre @ es)) \<Longrightarrow>
     sweep_thinking ttl now es (pre @ es)
       = pre @ filter (\<lambda>(k, e). \<not> now - thinking_timestamp e > ttl) es"
proof (induction es arbitrary: pre)
  case Nil
  then show ?case by simp
next
  case (Cons p es)
  obtain k e where p: "p = (k, e)" by (cases p)
  from Cons.prems p have k: "k \<notin> fst ` set pre" "k \<notin> fst ` set es"
    by auto
  show ?case
  proof (cases "now - thinking_timestamp e > ttl")
    case True
    from Cons.prems p have "distinct (map fst (pre @ es))" by auto
    from Cons.IH [OF this] True k show ?thesis
      by (simp add: p delete_middle)
  next
    case False
    from Cons.prems p have "distinct (map fst ((pre @ [(k, e)]) @ es))" by auto
    from Cons.IH [OF this] False show ?thesis
      by (simp add: p)
  qed
qed

lemma sweep_signatures_filter:
  "distinct (map fst m) \<Longrightarrow>
     sweep_signatures ttl now m m = filter (\<lambda>(k, e). \<not> now - timestamp e > ttl) m"
  using sweep_signatures_suffix [of "[]" m ttl now] by simp

lemma sweep_thinking_filter:
  "distinct (map fst m) \<Longrightarrow>
     sweep_thinking ttl now m m = filter (\<lambda>(k, e). \<not> now - thinking_timestamp e > ttl) m"
  using sweep_thinking_suffix [of "[]" m ttl now] by simp

subsection \<open>The invariant of the reachable states\<close>

lemma list_all_update:
  "list_all P al \<Longrightarrow> P (k, v) \<Longrightarrow> list_all P (AList.update k v al)"
  by (induction al) auto

lemma list_all_delete: "list_all P al \<Longrightarrow> list_all P (AList.delete k al)"
  by (induction al) auto

lemma cache_inv_initial: "cache_inv minlen initial_cache"
  by (simp add: cache_inv_def initial_cache_def)

lemma cache_inv_cacheSignature:
  "cache_inv minlen s \<Longrightarrow> cache_inv minlen (cacheSignature now k v s)"
  by (simp add: cache_inv_def cacheSignature_def distinct_update)

lemma cache_inv_getCachedSignature:
  "cache_inv minlen s \<Longrightarrow> cache_inv minlen (snd (getCachedSignature ttl now k s))"
  by (simp add: cache_inv_def getCachedSignature_def distinct_delete split: option.splits)

lemma cache_inv_cacheThinkingSignature:
  "cache_inv minlen s \<Longrightarrow> cache_inv minlen (cacheThinkingSignature minlen now k v s)"
  by (simp add: cache_inv_def cacheThinkingSignature_def distinct_update list_all_update)

lemma cache_inv_getCachedSignatureFamily:
  "cache_inv minlen s \<Longrightarrow> cache_inv minlen (snd (getCachedSignatureFamily ttl now k s))"
  by (simp add: cache_inv_def getCachedSignatureFamily_def distinct_delete list_all_delete
      split: option.splits)

lemma cache_inv_clearThinkingSignatureCache:
  "cache_inv minlen s \<Longrightarrow> cache_inv minlen (clearThinkingSignatureCache s)"
  by (simp add: cache_inv_def clearThinkingSignatureCache_def)

lemma cache_inv_cleanupExpiredEntries:
  "cache_inv minlen s \<Longrightarrow> cache_inv minlen (cleanupExpiredEntries ttl now s)"
  by (simp add: cache_inv_def cleanupExpiredEntries_def Let_def sweep_signatures_filter
      sweep_thinking_filter distinct_map_filter list_all_iff)

lemma reachable_cache_inv: "reachable minlen ttl s \<Longrightarrow> cache_inv minlen s"
  by (induction rule: reachable.induct)
    (simp_all add: cache_inv_initial cache_inv_cacheSignature cache_inv_getCachedSignature
      cache_inv_cacheThinkingSignature cache_inv_getCachedSignatureFamily
      cache_inv_clearThinkingSignatureCache cache_inv_cleanupExpiredEntries)

lemma reachable_demo_cache: "reachable 4 5000 demo_cache"
  unfolding demo_cache_def by (intro reachable.intros)

subsection \<open>Round trip of a tool-call signature\<close>

text \<open>
  Claim C4. For a non-empty tool-use id and a non-empty signature, a store at time \<open>t0\<close>
  followed by a read at time \<open>t1\<close> returns the stored signature as long as the TTL has
  not elapsed (\<open>t1 - t0 \<le> ttl\<close>), and returns absent once it has (\<open>t1 - t0 > ttl\<close>),
  whatever the cache held before the store.
\<close>

theorem cacheSignature_roundtrip:
  assumes "toolUseId \<noteq> []" and "sig \<noteq> []"
  shows "(t1 - t0 \<le> ttl \<longrightarrow>
            fst (getCachedSignature ttl t1 toolUseId (cacheSignature t0 toolUseId sig s)) = Some sig)
       \<and> (t1 - t0 > ttl \<longrightarrow>
            fst (getCachedSignature ttl t1 toolUseId (cacheSignature t0 toolUseId sig s)) = None)"
  using assms by (simp add: getCachedSignature_def cacheSignature_def update_conv')

theorem cacheSignature_roundtrip_witness:
  "''toolu_01'' \<noteq> [] \<and> ''sigA'' \<noteq> [] \<and> (1500::int) - 1000 \<le> 7200000
   \<and> fst (getCachedSignature 7200000 1500 ''toolu_01''
        (cacheSignature 1000 ''toolu_01'' ''sigA'' demo_cache)) = Some ''sigA''
   \<and> (7201001::int) - 1000 > 7200000
   \<and> fst (getCachedSignature 7200000 7201001 ''toolu_01''
        (cacheSignature 1000 ''toolu_01'' ''sigA'' demo_cache)) = None"
  using cacheSignature_roundtrip [of "''toolu_01''" "''sigA''" 1500 1000 7200000 demo_cache]
    cacheSignature_roundtrip [of "''toolu_01''" "''sigA''" 7201001 1000 7200000 demo_cache]
  by simp

subsection \<open>The cleanup sweep\<close>

text \<open>
  Claim C5. In every state the module can be in, one sweep at time \<open>now\<close> leaves in each
  of the two maps exactly the entries that are not expired at \<open>now\<close>, in their order and
  with their values; every entry with \<open>now - timestamp > ttl\<close> is gone. The exported
  \<open>cleanupCache\<close> is that same sweep.
\<close>

theorem cleanup_removes_exactly_expired:
  assumes "reachable minlen ttl s"
  shows "signatureCache (cleanupExpiredEntries ttl now s)
           = filter (\<lambda>(k, e). \<not> now - timestamp e > ttl) (signatureCache s)
       \<and> thinkingSignatureCache (cleanupExpiredEntries ttl now s)
           = filter (\<lambda>(k, e). \<not> now - thinking_timestamp e > ttl) (thinkingSignatureCache s)
       \<and> cleanupCache ttl now s = cleanupExpiredEntries ttl now s"
proof -
  from assms have "cache_inv minlen s" by (rule reachable_cache_inv)
  then show ?thesis
    by (simp add: cache_inv_def cleanupExpiredEntries_def cleanupCache_def Let_def
        sweep_signatures_filter sweep_thinking_filter)
qed

theorem cleanup_removes_exactly_expired_witness:
  "reachable 4 5000 demo_cache
   \<and> signatureCache (cleanupExpiredEntries 5000 10000 demo_cache)
       = [(''toolu_02'', \<lparr>signature = ''sigB'', timestamp = 9000\<rparr>)]
   \<and> thinkingSignatureCache (cleanupExpiredEntries 5000 10000 demo_cache) = []
   \<and> cleanupCache 5000 10000 demo_cache = cleanupExpiredEntries 5000 10000 demo_cache"
  using cleanup_removes_exactly_expired [OF reachable_demo_cache, of 10000] reachable_demo_cache
  by (simp add: demo_cache_def initial_cache_def cacheSignature_def cacheThinkingSignature_def)

subsection \<open>Signatures below the minimum length\<close>

text \<open>
  Claim C7. In every state the module can be in, \<open>cacheThinkingSignature\<close> with a
  signature that is empty or shorter than the minimum length returns the state as it was
  (both maps unchanged), and a following \<open>getCachedSignatureFamily\<close> of that signature,
  at any time, returns absent.
\<close>

theorem short_signature_not_cached:
  assumes "reachable minlen ttl s" and "sig = [] \<or> length sig < minlen"
  shows "cacheThinkingSignature minlen now sig family s = s
       \<and> fst (getCachedSignatureFamily ttl now' sig
                (cacheThinkingSignature minlen now sig family s)) = None"
proof -
  from assms(1) have inv: "cache_inv minlen s" by (rule reachable_cache_inv)
  from assms(2) have same: "cacheThinkingSignature minlen now sig family s = s"
    by (auto simp: cacheThinkingSignature_def)
  have "map_of (thinkingSignatureCache s) sig = None"
  proof (cases "map_of (thinkingSignatureCache s) sig")
    case None
    then show ?thesis .
  next
    case (Some e)
    then have "(sig, e) \<in> set (thinkingSignatureCache s)" by (rule map_of_SomeD)
    with inv have "sig \<noteq> [] \<and> minlen \<le> length sig"
      by (auto simp: cache_inv_def list_all_iff)
    with assms(2) show ?thesis by auto
  qed
  then have "fst (getCachedSignatureFamily ttl now' sig s) = None"
    by (simp add: getCachedSignatureFamily_def)
  with same show ?thesis by simp
qed

theorem short_signature_not_cached_witness:
  "reachable 4 5000 demo_cache \<and> length ''abc'' < (4::nat)
   \<and> cacheThinkingSignature 4 3000 ''abc'' ''claude'' demo_cache = demo_cache
   \<and> fst (getCachedSignatureFamily 5000 3001 ''abc''
        (cacheThinkingSignature 4 3000 ''abc'' ''claude'' demo_cache)) = None"
proof -
  have "length ''abc'' < (4::nat)" by simp
  with short_signature_not_cached [OF reachable_demo_cache, of "''abc''" 3000 "''claude''" 3001]
    reachable_demo_cache
  show ?thesis by blast
qed

section \<open>Properties of the parameter mapping\<close>

lemmas remap_defs = remapFunctionCallArgs_def remap_grep_def remap_glob_def remap_description_def
  remap_query_def remap_includes_def remap_ignore_case_def remap_dash_n_def boolParams_def
  coerce_param_def toLowerCase_def toLowerCase_char_def

subsection \<open>Each remapping block, key by key\<close>

lemma remap_description_source: "map_of (remap_description a) ''description'' = None"
  by (simp add: remap_description_def Let_def update_conv' delete_conv' split: option.splits)

lemma remap_description_absent:
  "map_of a k = None \<Longrightarrow> k \<noteq> ''pattern'' \<Longrightarrow> map_of (remap_description a) k = None"
  by (simp add: remap_description_def Let_def update_conv' delete_conv' split: option.splits)

lemma remap_description_present:
  "map_of a k = Some v \<Longrightarrow> k \<noteq> ''description'' \<Longrightarrow> map_of (remap_description a) k = Some v"
  by (auto simp: remap_description_def Let_def update_conv' delete_conv' split: option.splits)

lemma remap_description_id: "map_of a ''description'' = None \<Longrightarrow> remap_description a = a"
  by (simp add: remap_description_def)

lemma remap_query_source: "map_of (remap_query a) ''query'' = None"
  by (simp add: remap_query_def Let_def update_conv' delete_conv' split: option.splits)

lemma remap_query_absent:
  "map_of a k = None \<Longrightarrow> k \<noteq> ''pattern'' \<Longrightarrow> map_of (remap_query a) k = None"
  by (simp add: remap_query_def Let_def update_conv' delete_conv' split: option.splits)

lemma remap_query_present:
  "map_of a k = Some v \<Longrightarrow> k \<noteq> ''query'' \<Longrightarrow> map_of (remap_query a) k = Some v"
  by (auto simp: remap_query_def Let_def update_conv' delete_conv' split: option.splits)

lemma remap_query_id: "map_of a ''query'' = None \<Longrightarrow> remap_query a = a"
  by (simp add: remap_query_def)

lemma remap_includes_source: "map_of (remap_includes a) ''includes'' = None"
  by (simp add: remap_includes_def Let_def update_conv' delete_conv' split: option.splits)

lemma remap_includes_absent:
  "map_of a k = None \<Longrightarrow> k \<noteq> ''include'' \<Longrightarrow> map_of (remap_includes a) k = None"
  by (simp add: remap_includes_def Let_def update_conv' delete_conv' split: option.splits)

lemma remap_includes_present:
  "map_of a k = Some v \<Longrightarrow> k \<noteq> ''includes'' \<Longrightarrow> map_of (remap_includes a) k = Some v"
  by (auto simp: remap_includes_def Let_def update_conv' delete_conv' split: option.splits)

lemma remap_includes_id: "map_of a ''includes'' = None \<Longrightarrow> remap_includes a = a"
  by (simp add: remap_includes_def)

lemma remap_ignore_case_source: "map_of (remap_ignore_case a) ''ignore_case'' = None"
  by (simp add: remap_ignore_case_def Let_def update_conv' delete_conv' split: option.splits)

lemma remap_ignore_case_absent:
  "map_of a k = None \<Longrightarrow> k \<noteq> ''ignoreCase'' \<Longrightarrow> map_of (remap_ignore_case a) k = None"
  by (simp add: remap_ignore_case_def Let_def update_conv' delete_conv' split: option.splits)

lemma remap_ignore_case_present:
  "map_of a k = Some v \<Longrightarrow> k \<noteq> ''ignore_case'' \<Longrightarrow> map_of (remap_ignore_case a) k = Some v"
  by (auto simp: remap_ignore_case_def Let_def update_conv' delete_conv' split: option.splits)

lemma remap_ignore_case_id: "map_of a ''ignore_case'' = None \<Longrightarrow> remap_ignore_case a = a"
  by (simp add: remap_ignore_case_def)

lemma remap_dash_n_source: "map_of (remap_dash_n a) ''-n'' = None"
  by (simp add: remap_dash_n_def Let_def update_conv' delete_conv' split: option.splits)

lemma remap_dash_n_absent:
  "map_of a k = None \<Longrightarrow> k \<noteq> ''lineNumbers'' \<Longrightarrow> map_of (remap_dash_n a) k = None"
  by (simp add: remap_dash_n_def Let_def update_conv' delete_conv' split: option.splits)

lemma remap_dash_n_present:
  "map_of a k = Some v \<Longrightarrow> k \<noteq> ''-n'' \<Longrightarrow> map_of (remap_dash_n a) k = Some v"
  by (auto simp: remap_dash_n_def Let_def update_conv' delete_conv' split: option.splits)

lemma remap_dash_n_id: "map_of a ''-n'' = None \<Longrightarrow> remap_dash_n a = a"
  by (simp add: remap_dash_n_def)

lemma coerce_param_absent: "map_of a k = None \<Longrightarrow> map_of (coerce_param p a) k = None"
  by (auto simp: coerce_param_def update_conv' split: option.splits json.splits)

lemma coerce_param_other: "k \<noteq> p \<Longrightarrow> map_of (coerce_param p a) k = map_of a k"
  by (auto simp: coerce_param_def update_conv' split: option.splits json.splits)

lemma coerce_param_settles: "settled p (coerce_param p a)"
  by (auto simp: settled_def coerce_param_def update_conv' split: option.splits json.splits)

lemma coerce_param_settled: "settled q a \<Longrightarrow> settled q (coerce_param p a)"
proof (cases "q = p")
  case True
  then show ?thesis by (simp add: coerce_param_settles)
next
  case False
  assume "settled q a"
  with False show ?thesis
    by (simp add: settled_def coerce_param_other del: coerceToBool.simps)
qed

lemma coerce_param_id: "settled p a \<Longrightarrow> coerce_param p a = a"
  by (auto simp: settled_def coerce_param_def split: option.splits json.splits)

lemma coerce_params_absent: "map_of a k = None \<Longrightarrow> map_of (coerce_params ps a) k = None"
  by (induction ps arbitrary: a) (simp_all add: coerce_param_absent)

lemma coerce_params_other: "k \<notin> set ps \<Longrightarrow> map_of (coerce_params ps a) k = map_of a k"
  by (induction ps arbitrary: a) (simp_all add: coerce_param_other)

lemma coerce_params_settled: "settled q a \<Longrightarrow> settled q (coerce_params ps a)"
  by (induction ps arbitrary: a) (simp_all add: coerce_param_settled)

lemma coerce_params_settles: "q \<in> set ps \<Longrightarrow> settled q (coerce_params ps a)"
proof (induction ps arbitrary: a)
  case Nil
  then show ?case by simp
next
  case (Cons p ps)
  show ?case
  proof (cases "q = p")
    case True
    then show ?thesis
      by (simp add: coerce_params_settled coerce_param_settles)
  next
    case False
    with Cons.prems have "q \<in> set ps" by simp
    then show ?thesis by (simp add: Cons.IH)
  qed
qed

lemma coerce_params_id: "\<forall>q\<in>set ps. settled q a \<Longrightarrow> coerce_params ps a = a"
  by (induction ps arbitrary: a) (simp_all add: coerce_param_id)

subsection \<open>The grep and glob branches\<close>

lemma remap_grep_sources:
  "map_of (remap_grep a) ''description'' = None"
  "map_of (remap_grep a) ''query'' = None"
  "map_of (remap_grep a) ''includes'' = None"
  "map_of (remap_grep a) ''ignore_case'' = None"
  "map_of (remap_grep a) ''-n'' = None"
  unfolding remap_grep_def
  by (simp_all add: coerce_params_absent remap_dash_n_absent remap_ignore_case_absent
      remap_includes_absent remap_query_absent remap_description_source remap_query_source
      remap_includes_source remap_ignore_case_source remap_dash_n_source)

lemma remap_grep_fixed:
  assumes "map_of a ''description'' = None" "map_of a ''query'' = None"
    "map_of a ''includes'' = None" "map_of a ''ignore_case'' = None" "map_of a ''-n'' = None"
    "\<forall>q\<in>set boolParams. settled q a"
  shows "remap_grep a = a"
  using assms
  by (simp add: remap_grep_def remap_description_id remap_query_id remap_includes_id
      remap_ignore_case_id remap_dash_n_id coerce_params_id)

lemma remap_grep_idem: "remap_grep (remap_grep a) = remap_grep a"
proof (rule remap_grep_fixed)
  show "\<forall>q\<in>set boolParams. settled q (remap_grep a)"
    by (simp add: remap_grep_def coerce_params_settles)
qed (rule remap_grep_sources)+

lemma remap_glob_sources:
  "map_of (remap_glob a) ''description'' = None"
  "map_of (remap_glob a) ''query'' = None"
  unfolding remap_glob_def
  by (simp_all add: remap_query_absent remap_description_source remap_query_source)

lemma remap_glob_idem: "remap_glob (remap_glob a) = remap_glob a"
  using remap_glob_sources [of a]
  by (simp add: remap_glob_def remap_description_id remap_query_id)

subsection \<open>Idempotence\<close>

text \<open>
  Claim C6. For every tool name and every arguments value, applying
  \<open>remapFunctionCallArgs\<close> to its own result gives that result again. In particular
  arguments that are already correct (none of the malformed keys present, no boolean
  parameter held as a string) are left exactly as they are.
\<close>

theorem remapFunctionCallArgs_idempotent:
  "remapFunctionCallArgs toolName (remapFunctionCallArgs toolName args)
     = remapFunctionCallArgs toolName args
   \<and> ((\<forall>k\<in>set malformedKeys. map_of props k = None)
        \<and> (\<forall>p\<in>set boolParams. \<forall>v. map_of props p \<noteq> Some (JStr v)) \<longrightarrow>
      remapFunctionCallArgs toolName (JObj props) = JObj props)"
proof (rule conjI)
  show "remapFunctionCallArgs toolName (remapFunctionCallArgs toolName args)
     = remapFunctionCallArgs toolName args"
  proof (cases args)
    case (JObj a)
    then show ?thesis
      by (simp add: remapFunctionCallArgs_def Let_def remap_grep_idem remap_glob_idem)
  qed (simp_all add: remapFunctionCallArgs_def)
next
  show "(\<forall>k\<in>set malformedKeys. map_of props k = None)
        \<and> (\<forall>p\<in>set boolParams. \<forall>v. map_of props p \<noteq> Some (JStr v)) \<longrightarrow>
      remapFunctionCallArgs toolName (JObj props) = JObj props"
  proof
    assume h: "(\<forall>k\<in>set malformedKeys. map_of props k = None)
        \<and> (\<forall>p\<in>set boolParams. \<forall>v. map_of props p \<noteq> Some (JStr v))"
    then have keys: "map_of props ''description'' = None" "map_of props ''query'' = None"
      "map_of props ''includes'' = None" "map_of props ''ignore_case'' = None"
      "map_of props ''-n'' = None"
      by (simp_all add: malformedKeys_def)
    from h have "\<forall>q\<in>set boolParams. settled q props"
      by (simp add: settled_def)
    with keys have "remap_grep props = props"
      by (rule remap_grep_fixed)
    moreover from keys have "remap_glob props = props"
      by (simp add: remap_glob_def remap_description_id remap_query_id)
    ultimately show "remapFunctionCallArgs toolName (JObj props) = JObj props"
      by (simp add: remapFunctionCallArgs_def Let_def)
  qed
qed

theorem remapFunctionCallArgs_idempotent_witness:
  "remapFunctionCallArgs ''Grep'' (JObj canonical_args) = JObj canonical_args
   \<and> remapFunctionCallArgs ''grep''
        (remapFunctionCallArgs ''grep'' (JObj [(''-n'', JStr ''true''), (''query'', JStr ''x'')]))
       = JObj [(''pattern'', JStr ''x''), (''lineNumbers'', JBool True)]"
proof -
  have a: "(\<forall>k\<in>set malformedKeys. map_of canonical_args k = None)
        \<and> (\<forall>p\<in>set boolParams. \<forall>v. map_of canonical_args p \<noteq> Some (JStr v))"
    by (simp add: malformedKeys_def boolParams_def canonical_args_def)
  have b: "remapFunctionCallArgs ''grep'' (JObj [(''-n'', JStr ''true''), (''query'', JStr ''x'')])
      = JObj [(''pattern'', JStr ''x''), (''lineNumbers'', JBool True)]"
    by (simp add: remap_defs)
  from a b
    remapFunctionCallArgs_idempotent [of "''Grep''" "JObj canonical_args" canonical_args]
    remapFunctionCallArgs_idempotent [of "''grep''"
      "JObj [(''-n'', JStr ''true''), (''query'', JStr ''x'')]" canonical_args]
  show ?thesis by simp
qed

subsection \<open>A present pattern is never overwritten\<close>

text \<open>
  Claim C9. For the tools grep and glob (in any letter case), when the arguments hold
  \<open>pattern\<close> together with \<open>description\<close> or \<open>query\<close>, the result holds
  \<open>pattern\<close> with the value it had, and neither \<open>description\<close> nor \<open>query\<close>.
\<close>

theorem remapFunctionCallArgs_keeps_pattern:
  assumes "toLowerCase toolName = ''grep'' \<or> toLowerCase toolName = ''glob''"
    and "map_of props ''pattern'' = Some p"
    and "map_of props ''description'' \<noteq> None \<or> map_of props ''query'' \<noteq> None"
  shows "\<exists>props'. remapFunctionCallArgs toolName (JObj props) = JObj props'
           \<and> map_of props' ''pattern'' = Some p
           \<and> map_of props' ''description'' = None
           \<and> map_of props' ''query'' = None"
proof -
  have "''pattern'' \<notin> set boolParams"
    by (simp add: boolParams_def)
  with assms(2) have grep: "map_of (remap_grep props) ''pattern'' = Some p"
    by (simp add: remap_grep_def coerce_params_other remap_dash_n_present
        remap_ignore_case_present remap_includes_present remap_query_present
        remap_description_present)
  have glob: "map_of (remap_glob props) ''pattern'' = Some p"
    using assms(2)
    by (simp add: remap_glob_def remap_query_present remap_description_present)
  from assms(1) grep glob show ?thesis
    by (auto simp: remapFunctionCallArgs_def Let_def remap_grep_sources remap_glob_sources)
qed

theorem remapFunctionCallArgs_keeps_pattern_witness:
  "toLowerCase ''Grep'' = ''grep''
   \<and> map_of [(''description'', JStr ''d''), (''pattern'', JStr ''p''), (''query'', JStr ''q'')]
        ''pattern'' = Some (JStr ''p'')
   \<and> map_of [(''description'', JStr ''d''), (''pattern'', JStr ''p''), (''query'', JStr ''q'')]
        ''description'' \<noteq> None
   \<and> (\<exists>props'. remapFunctionCallArgs ''Grep''
          (JObj [(''description'', JStr ''d''), (''pattern'', JStr ''p''), (''query'', JStr ''q'')])
            = JObj props'
        \<and> map_of props' ''pattern'' = Some (JStr ''p'')
        \<and> map_of props' ''description'' = None
        \<and> map_of props' ''query'' = None)"
proof -
  have a: "toLowerCase ''Grep'' = ''grep''"
    by (simp add: toLowerCase_def toLowerCase_char_def)
  have b: "map_of [(''description'', JStr ''d''), (''pattern'', JStr ''p''), (''query'', JStr ''q'')]
        ''pattern'' = Some (JStr ''p'')"
    by simp
  have c: "map_of [(''description'', JStr ''d''), (''pattern'', JStr ''p''), (''query'', JStr ''q'')]
        ''description'' \<noteq> None"
    by simp
  from a b c remapFunctionCallArgs_keeps_pattern [of "''Grep''"
      "[(''description'', JStr ''d''), (''pattern'', JStr ''p''), (''query'', JStr ''q'')]"
      "JStr ''p''"]
  show ?thesis by blast
qed

section \<open>Properties of the SQLite access\<close>

lemmas db_defs = getAuthStatus_def readAuthStatus_def getDatabaseConnection_def
  cached_connection_def loadDatabaseModule_def isDatabaseAccessible_def Error_def
  newNativeModuleError_def initial_module_def

lemmas db_demo_defs = empty_disk_def stale_module_def test_disk_def test_auth_def cantopen_def
  version_mismatch_def


lemma loadDatabaseModule_cache: "dbCache (snd (loadDatabaseModule env st)) = dbCache st"
  by (simp add: loadDatabaseModule_def Let_def split: option.splits sum.splits)

text \<open>When the native module is available, in terms of the module's variables and of what
  \<open>require\<close> and the rebuild helpers do: the constructor is already loaded, or no load
  error is stored and either \<open>require\<close> succeeds or it fails with a version mismatch,
  the rebuild succeeds and the reload succeeds.\<close>

lemma loadDatabaseModule_succeeded:
  "succeeded (fst (loadDatabaseModule env st)) \<longleftrightarrow>
     Database st
     \<or> (moduleLoadError st = None
         \<and> (succeeded (require_sqlite env)
             \<or> (\<exists>e. require_sqlite env = Inl e \<and> isModuleVersionError env e
                   \<and> attemptAutoRebuild env e \<and> succeeded (reload_sqlite env))))"
  by (auto simp: loadDatabaseModule_def succeeded_def Let_def split: option.splits sum.splits)

lemma isDatabaseAccessible_result:
  "fst (isDatabaseAccessible env st dbPath)
     = Inr (succeeded (fst (loadDatabaseModule env st))
            \<and> (has_open_connection st dbPath \<or> succeeded (open_database env dbPath)))"
proof (cases "loadDatabaseModule env st")
  case (Pair r st1)
  then have c: "dbCache st1 = dbCache st"
    using loadDatabaseModule_cache [of env st] by simp
  show ?thesis
  proof (cases r)
    case (Inl e)
    with Pair show ?thesis
      by (simp add: isDatabaseAccessible_def getDatabaseConnection_def succeeded_def)
  next
    case (Inr u)
    with Pair c show ?thesis
      by (auto simp: isDatabaseAccessible_def getDatabaseConnection_def succeeded_def
          cached_connection_def has_open_connection_def Let_def split: option.splits sum.splits)
  qed
qed





text \<open>The state the module is left in by one run on the test's database.\<close>

lemma opened_module_eq:
  "opened_module = \<lparr>Database = True, moduleLoadError = None,
     dbCache = [(''./test-database.vscdb'', \<lparr>is_open = True, cachedAuthStmt = False\<rparr>)]\<rparr>"
  by (simp add: opened_module_def db_defs db_demo_defs Let_def)


subsection \<open>isDatabaseAccessible never throws\<close>

text \<open>
  Claim C10, as amended. For every path, every state of the module and every behaviour of
  its surroundings, \<open>isDatabaseAccessible\<close> returns a boolean and throws nothing. It
  returns true exactly when the native module is available and either the cache holds an
  open connection for the path or the driver opens the database at the path; it returns
  false otherwise, so when the file does not exist and no connection is cached, and
  whenever the native module fails to load.
\<close>

theorem isDatabaseAccessible_total:
  "fst (isDatabaseAccessible env st dbPath)
     = Inr ((Database st
             \<or> (moduleLoadError st = None
                 \<and> (succeeded (require_sqlite env)
                     \<or> (\<exists>e. require_sqlite env = Inl e \<and> isModuleVersionError env e
                           \<and> attemptAutoRebuild env e \<and> succeeded (reload_sqlite env)))))
            \<and> (has_open_connection st dbPath \<or> succeeded (open_database env dbPath)))"
  by (simp only: isDatabaseAccessible_result loadDatabaseModule_succeeded)

text \<open>
  The claim as first stated, true when a connection to the database at the path can be
  opened and false otherwise, fails on a cached connection: after one successful call the
  database file is deleted, the driver can no longer open the path, and the function still
  returns true, because it finds the open connection in the cache and does not ask the
  driver again.
\<close>

theorem isDatabaseAccessible_counterexample:
  "open_database unlinked_disk ''./test-database.vscdb'' = Inl cantopen
   \<and> fst (isDatabaseAccessible unlinked_disk opened_module ''./test-database.vscdb'') = Inr True"
  by (simp add: opened_module_eq unlinked_disk_def db_defs db_demo_defs Let_def)

theorem isDatabaseAccessible_total_witness:
  "fst (isDatabaseAccessible test_disk initial_module ''./test-database.vscdb'') = Inr True
   \<and> fst (isDatabaseAccessible test_disk initial_module ''./non-existent.db'') = Inr False
   \<and> open_database stale_test_disk ''./test-database.vscdb'' = Inr ()
   \<and> fst (isDatabaseAccessible stale_test_disk initial_module ''./test-database.vscdb'') = Inr False
   \<and> fst (isDatabaseAccessible unlinked_disk opened_module ''./test-database.vscdb'') = Inr True"
  using isDatabaseAccessible_total [of test_disk initial_module "''./test-database.vscdb''"]
    isDatabaseAccessible_total [of test_disk initial_module "''./non-existent.db''"]
    isDatabaseAccessible_total [of stale_test_disk initial_module "''./test-database.vscdb''"]
    isDatabaseAccessible_total [of unlinked_disk opened_module "''./test-database.vscdb''"]
  by (simp add: succeeded_def has_open_connection_def initial_module_def opened_module_eq
      stale_test_disk_def unlinked_disk_def db_demo_defs)

subsection \<open>What getAuthStatus returns and throws\<close>




section \<open>Properties of the account pool\<close>

lemma fold_preferred_mem: "fold (\<lambda>b best. preferred best b) as a \<in> set (a # as)"
  by (induction as arbitrary: a) (auto simp: preferred_def)





lemma selectAccount_available:
  assumes "\<exists>a\<in>set accounts. isAvailable now a"
  shows "\<exists>a. selectAccount now accounts = (Some a, 0) \<and> a \<in> set accounts \<and> isAvailable now a"
proof -
  from assms obtain b bs where av: "getAvailableAccounts now accounts = b # bs"
    by (cases "getAvailableAccounts now accounts")
      (auto simp: getAvailableAccounts_def filter_empty_conv)
  let ?c = "fold (\<lambda>b best. preferred best b) bs b"
  have "?c \<in> set (getAvailableAccounts now accounts)"
    using fold_preferred_mem [of bs b] av by simp
  then have "?c \<in> set accounts \<and> isAvailable now ?c"
    by (simp add: getAvailableAccounts_def)
  moreover have "selectAccount now accounts = (Some ?c, 0)"
    using av by (simp add: selectAccount_def)
  ultimately show ?thesis by blast
qed

subsection \<open>The contract of selectAccount\<close>



section \<open>Properties of the dispatcher\<close>

subsection \<open>A 2xx answer is the last call of a request\<close>

lemma no_success_Nil: "no_success transport []"
  by (simp add: no_success_def)

lemma no_success_snoc:
  "no_success transport (cs @ [e]) \<longleftrightarrow>
     no_success transport cs \<and> (case transport (length cs) e of Success body \<Rightarrow> False | _ \<Rightarrow> True)"
  by (auto simp: no_success_def nth_append less_Suc_eq)

lemma attempt_loop_committed:
  "attempt_loop cfg transport resolves fuel ph st = Some r \<Longrightarrow>
     no_success transport (calls st) \<Longrightarrow> committed transport r"
proof (induction cfg transport resolves fuel ph st rule: attempt_loop.induct)
  case (1 cfg transport resolves ph st)
  then show ?case by simp
next
  case (2 cfg transport resolves fuel st)
  then show ?case
    by (auto simp: Let_def committed_def split: prod.splits option.splits if_splits)
next
  case (3 cfg transport resolves fuel acct st)
  show ?case
  proof (cases "length (endpoints cfg) \<le> endpointIndex st")
    case True
    with "3.prems" show ?thesis
      by (auto simp: committed_def)
  next
    case False
    let ?e = "endpoints cfg ! endpointIndex st"
    show ?thesis
    proof (cases "transport (length (calls st)) ?e")
      case (Success body)
      with False "3.prems" show ?thesis
        by (auto simp: Let_def committed_def)
    next
      case CapacityExhausted503
      with False "3.prems" "3.IH"(1) [OF False refl refl CapacityExhausted503] show ?thesis
        by (auto simp: Let_def committed_def no_success_snoc split: if_splits)
    next
      case (RateLimited429 reset)
      with False "3.prems" "3.IH"(2) [OF False refl refl RateLimited429] show ?thesis
        by (auto simp: Let_def no_success_snoc)
    next
      case Failure
      with False "3.prems" "3.IH"(3) [OF False refl refl Failure refl] show ?thesis
        by (auto simp: Let_def committed_def no_success_snoc split: if_splits)
    qed
  qed
qed

subsection \<open>The translator and single steps of the loop\<close>

lemma translate_nonempty: "translate totals frames \<noteq> []"
  by (induction totals frames rule: translate.induct) auto

lemma translate_capacity_signal:
  "CapacitySignal \<notin> set pre \<Longrightarrow>
     translate totals (pre @ CapacitySignal # rest)
       = butlast (translate totals pre) @ [ErrorEvent CapacityExhausted]"
  by (induction totals pre rule: translate.induct) (simp_all add: translate_nonempty)

lemma clearExpiredLimits_available:
  "isAvailable now a \<Longrightarrow> isAvailable now (case rateLimitedUntil a of
                 None \<Rightarrow> a
               | Some t \<Rightarrow> if now < t then a else a\<lparr>rateLimitedUntil := None\<rparr>)"
  by (auto simp: isAvailable_def rateLimited_def split: option.splits)

lemma clearExpiredLimits_keeps_available:
  "\<exists>a\<in>set accounts. isAvailable now a \<Longrightarrow>
     \<exists>a\<in>set (clearExpiredLimits now accounts). isAvailable now a"
  unfolding clearExpiredLimits_def set_map
  using clearExpiredLimits_available by blast

lemma clearExpiredLimits_emails:
  "a \<in> set (clearExpiredLimits now accounts) \<Longrightarrow> email a \<in> email ` set accounts"
  by (auto simp: clearExpiredLimits_def split: option.splits if_splits)

lemma attempt_loop_select:
  assumes "selectAccount (clock st) (clearExpiredLimits (clock st) (pool st)) = (Some a, w)"
    and "resolves (email a)"
  shows "attempt_loop cfg transport resolves (Suc fuel) Selecting st
           = attempt_loop cfg transport resolves fuel (Calling (email a))
               (st\<lparr>pool := clearExpiredLimits (clock st) (pool st)\<rparr>)"
  using assms by (simp add: Let_def)

lemma attempt_loop_capacity:
  assumes "endpointIndex st < length (endpoints cfg)"
    and "transport (length (calls st)) (endpoints cfg ! endpointIndex st) = CapacityExhausted503"
    and "attempt st < maxCapacityRetries cfg"
  shows "attempt_loop cfg transport resolves (Suc fuel) (Calling acct) st
           = attempt_loop cfg transport resolves fuel (Calling acct)
               (st\<lparr>calls := calls st @ [endpoints cfg ! endpointIndex st],
                   clock := clock st + backoff cfg (attempt st),
                   endpointIndex := Suc (endpointIndex st),
                   attempt := Suc (attempt st)\<rparr>)"
  using assms by (simp add: Let_def)

lemma attempt_loop_success:
  assumes "endpointIndex st < length (endpoints cfg)"
    and "transport (length (calls st)) (endpoints cfg ! endpointIndex st) = Success body"
  shows "attempt_loop cfg transport resolves (Suc fuel) (Calling acct) st
           = Some \<lparr>final = st\<lparr>calls := calls st @ [endpoints cfg ! endpointIndex st],
                               pool := notifySuccess acct (pool st)\<rparr>,
                   outcome = Inr body\<rparr>"
  using assms by (simp add: Let_def)

lemmas dispatch_demo_defs = test_config_def test_transport_def test_pool_def always_resolves_def
  broken_stream_def start_def selectAccount_def getAvailableAccounts_def isAvailable_def
  rateLimited_def clearExpiredLimits_def notifySuccess_def backoff_def

subsection \<open>Failover from the first endpoint to the second\<close>

text \<open>
  Claim C1. With the fallback list \<open>[E0, E1]\<close>, a transport that answers \<open>E0\<close> with the
  capacity-exhausted 503 and \<open>E1\<close> with a 2xx body, a retry budget of at least one, and a
  pool with an available account whose credentials resolve, both entry points return (on
  any fuel of at least 3) after exactly two upstream calls, \<open>E0\<close> then \<open>E1\<close>, and the
  caller observes the events, respectively the aggregate, of the \<open>E1\<close> body and nothing
  else.
\<close>

theorem capacity_failover_two_calls:
  assumes "endpoints cfg = [E0, E1]"
    and "\<forall>n. transport n E0 = CapacityExhausted503"
    and "\<forall>n. transport n E1 = Success body"
    and "1 \<le> maxCapacityRetries cfg"
    and "\<exists>a\<in>set accounts. isAvailable now a"
    and "\<forall>a\<in>set accounts. resolves (email a)"
    and "3 \<le> fuel"
  shows "sendMessageStream cfg transport resolves fuel accounts now
           = Some \<lparr>upstream_calls = [E0, E1], events = translate (0, 0) body\<rparr>
       \<and> sendMessage cfg transport resolves fuel accounts now
           = Some \<lparr>message_calls = [E0, E1],
                   response = aggregate \<lparr>content = [], tool_calls = [], usage = (0, 0)\<rparr>
                                (translate (0, 0) body)\<rparr>"
proof -
  let ?accounts = "clearExpiredLimits now accounts"
  from assms(5) have "\<exists>a\<in>set ?accounts. isAvailable now a"
    by (rule clearExpiredLimits_keeps_available)
  then obtain a where a: "selectAccount now ?accounts = (Some a, 0)" "a \<in> set ?accounts"
    using selectAccount_available by blast
  from a(2) have "email a \<in> email ` set accounts"
    by (rule clearExpiredLimits_emails)
  then obtain b where "b \<in> set accounts" "email a = email b" by blast
  with assms(6) have res: "resolves (email a)" by simp
  define f where "f = fuel - 3"
  with assms(7) have fuel: "fuel = Suc (Suc (Suc f))" by simp
  define s1 where "s1 = (start accounts now)\<lparr>pool := ?accounts\<rparr>"
  define s2 where "s2 = s1\<lparr>calls := calls s1 @ [endpoints cfg ! endpointIndex s1],
                   clock := clock s1 + backoff cfg (attempt s1),
                   endpointIndex := Suc (endpointIndex s1),
                   attempt := Suc (attempt s1)\<rparr>"
  have s1: "endpointIndex s1 = 0" "calls s1 = []" "attempt s1 = 0"
    by (simp_all add: s1_def start_def)
  have s2: "endpointIndex s2 = 1" "calls s2 = [E0]"
    by (simp_all add: s2_def s1 assms(1))
  have step1: "attempt_loop cfg transport resolves fuel Selecting (start accounts now)
      = attempt_loop cfg transport resolves (Suc (Suc f)) (Calling (email a)) s1"
  proof -
    have "selectAccount (clock (start accounts now))
        (clearExpiredLimits (clock (start accounts now)) (pool (start accounts now))) = (Some a, 0)"
      by (simp add: start_def a(1))
    with res attempt_loop_select [where resolves = resolves and st = "start accounts now"
        and a = a and w = 0 and cfg = cfg and transport = transport and fuel = "Suc (Suc f)"]
    show ?thesis by (simp add: fuel s1_def start_def)
  qed
  have step2: "attempt_loop cfg transport resolves (Suc (Suc f)) (Calling (email a)) s1
      = attempt_loop cfg transport resolves (Suc f) (Calling (email a)) s2"
    unfolding s2_def
    by (rule attempt_loop_capacity) (simp_all add: s1 assms(1,2) assms(4) [unfolded One_nat_def] Suc_le_lessD)
  have step3: "attempt_loop cfg transport resolves (Suc f) (Calling (email a)) s2
      = Some \<lparr>final = s2\<lparr>calls := calls s2 @ [endpoints cfg ! endpointIndex s2],
                               pool := notifySuccess (email a) (pool s2)\<rparr>,
                   outcome = Inr body\<rparr>"
    by (rule attempt_loop_success) (simp_all add: s2 assms(1,3))
  have "calls s2 @ [endpoints cfg ! endpointIndex s2] = [E0, E1]"
    by (simp add: s2 assms(1))
  with step1 step2 step3 show ?thesis
    by (simp add: sendMessageStream_def sendMessage_def)
qed

theorem capacity_failover_two_calls_witness:
  "sendMessageStream test_config test_transport always_resolves 5 test_pool 0
     = Some \<lparr>upstream_calls = [''https://daily.example'', ''https://prod.example''],
             events = [TextDelta ''Stream success'', Done]\<rparr>
   \<and> sendMessage test_config test_transport always_resolves 5 test_pool 0
     = Some \<lparr>message_calls = [''https://daily.example'', ''https://prod.example''],
             response = Inr \<lparr>content = ''Stream success'', tool_calls = [], usage = (0, 0)\<rparr>\<rparr>"
proof -
  have 1: "endpoints test_config = [''https://daily.example'', ''https://prod.example'']"
    by (simp add: test_config_def)
  have 2: "\<forall>n. test_transport n ''https://daily.example'' = CapacityExhausted503"
    by (simp add: test_transport_def)
  have 3: "\<forall>n. test_transport n ''https://prod.example'' = Success [TextFrame ''Stream success'']"
    by (simp add: test_transport_def)
  have 4: "1 \<le> maxCapacityRetries test_config"
    by (simp add: test_config_def)
  have 5: "\<exists>a\<in>set test_pool. isAvailable 0 a"
    by (simp add: test_pool_def isAvailable_def rateLimited_def)
  have 6: "\<forall>a\<in>set test_pool. always_resolves (email a)"
    by (simp add: always_resolves_def)
  have 7: "3 \<le> (5::nat)" by simp
  from capacity_failover_two_calls [OF 1 2 3 4 5 6 7] show ?thesis by simp
qed

subsection \<open>No failover once the body has started\<close>

text \<open>
  Claim C2. A 2xx answer commits the request. First, at any point of the loop where the
  current endpoint answers 2xx, the loop returns with that call as its last one and the
  body as its outcome. Second, in every finished streaming dispatch, a call whose 2xx body
  carries a capacity-exhaustion signal after the frames \<open>pre\<close> is the last upstream call
  (no failover, no retry), and the caller's events are those forwarded for \<open>pre\<close>
  followed by one terminal error event. So a further call is only ever made after an
  answer that was not 2xx, before any byte of a body was interpreted.
\<close>

theorem committed_stream_never_fails_over:
  "(endpointIndex st < length (endpoints cfg)
      \<and> transport (length (calls st)) (endpoints cfg ! endpointIndex st) = Success body \<longrightarrow>
      (\<exists>r. attempt_loop cfg transport resolves (Suc fuel) (Calling acct) st = Some r
         \<and> calls (final r) = calls st @ [endpoints cfg ! endpointIndex st]
         \<and> outcome r = Inr body))
   \<and> (sendMessageStream cfg transport resolves fuel accounts now = Some res
        \<and> j < length (upstream_calls res)
        \<and> transport j (upstream_calls res ! j) = Success (pre @ CapacitySignal # rest)
        \<and> CapacitySignal \<notin> set pre \<longrightarrow>
      Suc j = length (upstream_calls res)
        \<and> events res = butlast (translate (0, 0) pre) @ [ErrorEvent CapacityExhausted])"
proof (rule conjI; rule impI)
  assume "endpointIndex st < length (endpoints cfg)
      \<and> transport (length (calls st)) (endpoints cfg ! endpointIndex st) = Success body"
  then show "\<exists>r. attempt_loop cfg transport resolves (Suc fuel) (Calling acct) st = Some r
         \<and> calls (final r) = calls st @ [endpoints cfg ! endpointIndex st]
         \<and> outcome r = Inr body"
    by (simp add: attempt_loop_success)
next
  assume h: "sendMessageStream cfg transport resolves fuel accounts now = Some res
        \<and> j < length (upstream_calls res)
        \<and> transport j (upstream_calls res ! j) = Success (pre @ CapacitySignal # rest)
        \<and> CapacitySignal \<notin> set pre"
  then obtain r where r: "attempt_loop cfg transport resolves fuel Selecting (start accounts now) = Some r"
    and res: "res = \<lparr>upstream_calls = calls (final r),
                events = (case outcome r of
                            Inr body \<Rightarrow> translate (0, 0) body
                          | Inl kind \<Rightarrow> [ErrorEvent kind])\<rparr>"
    by (auto simp: sendMessageStream_def split: option.splits)
  have "no_success transport (calls (start accounts now))"
    by (simp add: start_def no_success_Nil)
  with r have c: "committed transport r" by (rule attempt_loop_committed)
  from h res have j: "j < length (calls (final r))"
    and s: "transport j (calls (final r) ! j) = Success (pre @ CapacitySignal # rest)"
    by simp_all
  show "Suc j = length (upstream_calls res)
        \<and> events res = butlast (translate (0, 0) pre) @ [ErrorEvent CapacityExhausted]"
  proof (cases "outcome r")
    case (Inl kind)
    with c have "no_success transport (calls (final r))" by (simp add: committed_def)
    with j s show ?thesis by (auto simp: no_success_def)
  next
    case (Inr body)
    with c obtain cs e where cs: "calls (final r) = cs @ [e]" "no_success transport cs"
      "transport (length cs) e = Success body"
      by (auto simp: committed_def)
    have "j = length cs"
    proof (rule ccontr)
      assume "j \<noteq> length cs"
      with j cs(1) have "j < length cs" by simp
      with cs(2) s cs(1) show False by (auto simp: no_success_def nth_append)
    qed
    with s cs have "body = pre @ CapacitySignal # rest" by simp
    with h Inr res cs \<open>j = length cs\<close> show ?thesis
      by (simp add: translate_capacity_signal)
  qed
qed

theorem committed_stream_never_fails_over_witness:
  "(\<exists>r. attempt_loop test_config broken_stream always_resolves (Suc 0)
          (Calling ''test@example.com'') (start test_pool 0) = Some r
        \<and> calls (final r) = [''https://daily.example'']
        \<and> outcome r = Inr [TextFrame ''a'', MalformedFrame, UsageFrame 1 2, CapacitySignal,
                            TextFrame ''b''])
   \<and> sendMessageStream test_config broken_stream always_resolves 5 test_pool 0
       = Some \<lparr>upstream_calls = [''https://daily.example''],
               events = [TextDelta ''a'', UsageUpdate 1 2, ErrorEvent CapacityExhausted]\<rparr>"
proof -
  let ?body = "[TextFrame ''a'', MalformedFrame, UsageFrame 1 2, CapacitySignal, TextFrame ''b'']"
  let ?pre = "[TextFrame ''a'', MalformedFrame, UsageFrame 1 2]"
  have a: "endpointIndex (start test_pool 0) < length (endpoints test_config)
      \<and> broken_stream (length (calls (start test_pool 0)))
           (endpoints test_config ! endpointIndex (start test_pool 0)) = Success ?body"
    by (simp add: start_def test_config_def broken_stream_def)
  have sel: "selectAccount 0 (clearExpiredLimits 0 test_pool) = (Some (hd test_pool), 0)"
    by (simp add: dispatch_demo_defs)
  have "sendMessageStream test_config broken_stream always_resolves
          (Suc (Suc (Suc (Suc (Suc 0))))) test_pool 0
      = Some \<lparr>upstream_calls = [''https://daily.example''], events = translate (0, 0) ?body\<rparr>"
    by (simp add: sendMessageStream_def start_def sel Let_def always_resolves_def
        test_config_def broken_stream_def)
  then have run: "sendMessageStream test_config broken_stream always_resolves 5 test_pool 0
      = Some \<lparr>upstream_calls = [''https://daily.example''], events = translate (0, 0) ?body\<rparr>"
    by (simp add: eval_nat_numeral)
  have b: "sendMessageStream test_config broken_stream always_resolves 5 test_pool 0
        = Some \<lparr>upstream_calls = [''https://daily.example''], events = translate (0, 0) ?body\<rparr>
      \<and> 0 < length (upstream_calls
            \<lparr>upstream_calls = [''https://daily.example''], events = translate (0, 0) ?body\<rparr>)
      \<and> broken_stream 0 (upstream_calls
            \<lparr>upstream_calls = [''https://daily.example''], events = translate (0, 0) ?body\<rparr> ! 0)
          = Success (?pre @ CapacitySignal # [TextFrame ''b''])
      \<and> CapacitySignal \<notin> set ?pre"
    using run by (simp add: broken_stream_def)
  from a committed_stream_never_fails_over [where st = "start test_pool 0" and cfg = test_config
      and transport = broken_stream and body = ?body and resolves = always_resolves and fuel = 0
      and acct = "''test@example.com''"]
  have first: "\<exists>r. attempt_loop test_config broken_stream always_resolves (Suc 0)
          (Calling ''test@example.com'') (start test_pool 0) = Some r
        \<and> calls (final r) = calls (start test_pool 0)
             @ [endpoints test_config ! endpointIndex (start test_pool 0)]
        \<and> outcome r = Inr ?body"
    by blast
  from b committed_stream_never_fails_over [where cfg = test_config
      and transport = broken_stream and resolves = always_resolves and fuel = 5
      and accounts = test_pool and now = 0
      and res = "\<lparr>upstream_calls = [''https://daily.example''], events = translate (0, 0) ?body\<rparr>"
      and j = 0 and pre = ?pre and rest = "[TextFrame ''b'']"]
  have "events \<lparr>upstream_calls = [''https://daily.example''], events = translate (0, 0) ?body\<rparr>
          = butlast (translate (0, 0) ?pre) @ [ErrorEvent CapacityExhausted]"
    by blast
  with first have "(\<exists>r. attempt_loop test_config broken_stream always_resolves (Suc 0)
          (Calling ''test@example.com'') (start test_pool 0) = Some r
        \<and> calls (final r) = calls (start test_pool 0)
             @ [endpoints test_config ! endpointIndex (start test_pool 0)]
        \<and> outcome r = Inr ?body)
      \<and> events \<lparr>upstream_calls = [''https://daily.example''], events = translate (0, 0) ?body\<rparr>
          = butlast (translate (0, 0) ?pre) @ [ErrorEvent CapacityExhausted]"
    by blast
  with run show ?thesis
    by (simp add: start_def test_config_def)
qed

end
